theory Spec2Isabelle
  imports Complex_Main "HOL-Library.Char_ord" "HOL-Library.List_Lexorder"
    "HOL-Library.Product_Lexorder" "HOL-Library.Word"
begin

section \<open>JavaScript numbers\<close>

text \<open>
  A JavaScript number is a finite value, NaN or one of the two infinities. A finite
  value is represented by the rational it denotes. The difference and the product of two
  finite values are rounded to the nearest double, a tie going to the even significand
  (\<open>to_double\<close>), and overflow to an infinity (\<open>js_norm\<close>: a magnitude of at
  least \<open>2^1024 - 2^970\<close> rounds to an infinity). A decimal literal of the source or
  of a payload is taken as the rational it spells: \<^verbatim>\<open>Number(s)\<close> does not round.
  The sign of zero is not represented.
\<close>

datatype jsnum = Fin rat | NaN | PosInf | NegInf

definition double_limit :: rat where
  "double_limit = 2 ^ 1024 - 2 ^ 970"

definition js_norm :: "rat \<Rightarrow> jsnum" where
  "js_norm q =
     (if double_limit \<le> q then PosInf
      else if q \<le> - double_limit then NegInf
      else Fin q)"

text \<open>
  Rounding to a double. The exponent of a value is the greatest \<open>k\<close> from -1022 to
  1023 with \<open>2^k\<close> at most its magnitude (-1022 for a subnormal value); the doubles
  around the value are the multiples of \<open>2^(k - 52)\<close>, and the value goes to the nearest
  of them.
\<close>

definition pow2 :: "int \<Rightarrow> rat" where
  "pow2 k = (if 0 \<le> k then 2 ^ nat k else 1 / 2 ^ nat (- k))"

definition exponents :: "int list" where
  "exponents = [- 1022..1023]"

definition binade :: "rat \<Rightarrow> int" where
  "binade q = last (- 1022 # filter (\<lambda>k. pow2 k \<le> \<bar>q\<bar>) exponents)"

definition round_half_even :: "rat \<Rightarrow> int" where
  "round_half_even y =
     (let f = \<lfloor>y\<rfloor>; r = y - of_int f
      in if r < 1 / 2 then f
         else if 1 / 2 < r then f + 1
         else if even f then f else f + 1)"

definition to_double :: "rat \<Rightarrow> jsnum" where
  "to_double q =
     (let ulp = pow2 (binade q - 52)
      in js_norm (ulp * of_int (round_half_even (q / ulp))))"

text \<open>\<^verbatim>\<open>Number.isFinite(x)\<close> on a value that is a number.\<close>

fun isFinite :: "jsnum \<Rightarrow> bool" where
  "isFinite (Fin q) = True"
| "isFinite NaN = False"
| "isFinite PosInf = False"
| "isFinite NegInf = False"

text \<open>The comparison \<^verbatim>\<open>a < b\<close>: false whenever an operand is NaN.\<close>

fun js_lt :: "jsnum \<Rightarrow> jsnum \<Rightarrow> bool" where
  "js_lt NaN b = False"
| "js_lt a NaN = False"
| "js_lt (Fin a) (Fin b) = (a < b)"
| "js_lt (Fin a) PosInf = True"
| "js_lt (Fin a) NegInf = False"
| "js_lt PosInf b = False"
| "js_lt NegInf NegInf = False"
| "js_lt NegInf b = True"

definition js_gt :: "jsnum \<Rightarrow> jsnum \<Rightarrow> bool" where
  "js_gt a b = js_lt b a"

text \<open>The subtraction \<^verbatim>\<open>a - b\<close>.\<close>

fun js_sub :: "jsnum \<Rightarrow> jsnum \<Rightarrow> jsnum" where
  "js_sub NaN b = NaN"
| "js_sub a NaN = NaN"
| "js_sub (Fin a) (Fin b) = to_double (a - b)"
| "js_sub (Fin a) PosInf = NegInf"
| "js_sub (Fin a) NegInf = PosInf"
| "js_sub PosInf PosInf = NaN"
| "js_sub PosInf b = PosInf"
| "js_sub NegInf NegInf = NaN"
| "js_sub NegInf b = NegInf"

text \<open>The product \<^verbatim>\<open>a * b\<close>: an infinity times zero is NaN.\<close>

definition js_sign :: "jsnum \<Rightarrow> int" where
  "js_sign a = (case a of Fin q \<Rightarrow> sgn (if q < 0 then - 1 else if q = 0 then 0 else 1)
     | NaN \<Rightarrow> 0 | PosInf \<Rightarrow> 1 | NegInf \<Rightarrow> - 1)"

fun js_mul :: "jsnum \<Rightarrow> jsnum \<Rightarrow> jsnum" where
  "js_mul NaN b = NaN"
| "js_mul a NaN = NaN"
| "js_mul (Fin a) (Fin b) = to_double (a * b)"
| "js_mul a b =
     (if js_sign a * js_sign b = 0 then NaN
      else if 0 < js_sign a * js_sign b then PosInf else NegInf)"

text \<open>
  \<^verbatim>\<open>Math.round(x)\<close>: the nearest integer, a tie going up; NaN and the infinities
  are returned unchanged.
\<close>

fun js_round :: "jsnum \<Rightarrow> jsnum" where
  "js_round (Fin q) = Fin (of_int \<lfloor>q + 1 / 2\<rfloor>)"
| "js_round a = a"

text \<open>\<^verbatim>\<open>Math.max(a, b)\<close>: NaN when an operand is NaN.\<close>

fun js_max :: "jsnum \<Rightarrow> jsnum \<Rightarrow> jsnum" where
  "js_max NaN b = NaN"
| "js_max a NaN = NaN"
| "js_max a b = (if js_lt a b then b else a)"

section \<open>JavaScript strings\<close>

text \<open>
  A string is a list of 8-bit characters. The white space of \<^verbatim>\<open>trim\<close> and of
  \<^verbatim>\<open>Number\<close>, the letters of \<^verbatim>\<open>toLowerCase\<close> and the digits of
  \<^verbatim>\<open>\d\<close> are the ASCII ones; characters beyond ASCII are left as they are.
\<close>

definition is_space :: "char \<Rightarrow> bool" where
  "is_space c = (c = CHR '' '' \<or> c = CHR 0x09 \<or> c = CHR 0x0A \<or> c = CHR 0x0B
     \<or> c = CHR 0x0C \<or> c = CHR 0x0D)"

definition trim :: "string \<Rightarrow> string" where
  "trim s = rev (dropWhile is_space (rev (dropWhile is_space s)))"

definition is_digit :: "char \<Rightarrow> bool" where
  "is_digit c = (CHR ''0'' \<le> c \<and> c \<le> CHR ''9'')"

definition is_upper :: "char \<Rightarrow> bool" where
  "is_upper c = (CHR ''A'' \<le> c \<and> c \<le> CHR ''Z'')"

definition lower_char :: "char \<Rightarrow> char" where
  "lower_char c = (if is_upper c then char_of (of_char c + (32::nat)) else c)"

definition toLowerCase :: "string \<Rightarrow> string" where
  "toLowerCase s = map lower_char s"

definition is_hex :: "char \<Rightarrow> bool" where
  "is_hex c = (is_digit c \<or> (CHR ''a'' \<le> c \<and> c \<le> CHR ''f'')
     \<or> (CHR ''A'' \<le> c \<and> c \<le> CHR ''F''))"

definition is_lower_hex :: "char \<Rightarrow> bool" where
  "is_lower_hex c = (is_digit c \<or> (CHR ''a'' \<le> c \<and> c \<le> CHR ''f''))"

definition digit_val :: "char \<Rightarrow> nat" where
  "digit_val c = of_char c - 48"

definition hex_val :: "char \<Rightarrow> nat" where
  "hex_val c =
     (if is_digit c then of_char c - 48
      else if CHR ''a'' \<le> c then of_char c - 87
      else of_char c - 55)"

definition radix_val :: "nat \<Rightarrow> string \<Rightarrow> nat" where
  "radix_val b ds = foldl (\<lambda>a c. b * a + hex_val c) 0 ds"

definition digits_val :: "string \<Rightarrow> nat" where
  "digits_val ds = foldl (\<lambda>a c. 10 * a + digit_val c) 0 ds"

subsection \<open>\<^verbatim>\<open>Number(s)\<close> on a string\<close>

text \<open>
  The string is trimmed; the empty string is 0; a literal is a radix literal
  (\<^verbatim>\<open>0x\<close>, \<^verbatim>\<open>0o\<close>, \<^verbatim>\<open>0b\<close>, unsigned), or an optional sign
  followed by \<^verbatim>\<open>Infinity\<close> or by a decimal literal with an optional fraction
  and an optional exponent. Anything else is NaN.
\<close>

definition scale10 :: "rat \<Rightarrow> int \<Rightarrow> rat" where
  "scale10 m e = (if 0 \<le> e then m * 10 ^ nat e else m / 10 ^ nat (- e))"

definition parse_exponent :: "string \<Rightarrow> int option" where
  "parse_exponent r =
     (case r of
        [] \<Rightarrow> Some 0
      | c # r' \<Rightarrow>
          if c = CHR ''e'' \<or> c = CHR ''E'' then
            (let sd = (case r' of
                         [] \<Rightarrow> (1, [])
                       | d # t \<Rightarrow>
                           if d = CHR ''+'' then (1, t)
                           else if d = CHR ''-'' then (- 1, t)
                           else (1, r'))
             in if snd sd \<noteq> [] \<and> list_all is_digit (snd sd)
                then Some (fst sd * int (digits_val (snd sd)))
                else None)
          else None)"

definition parse_decimal :: "string \<Rightarrow> rat option" where
  "parse_decimal s =
     (let ip = takeWhile is_digit s; r1 = dropWhile is_digit s in
      case r1 of
        [] \<Rightarrow> if ip = [] then None else Some (of_nat (digits_val ip))
      | c # r2 \<Rightarrow>
          if c = CHR ''.'' then
            (let fp = takeWhile is_digit r2; r3 = dropWhile is_digit r2 in
             if ip = [] \<and> fp = [] then None
             else (case parse_exponent r3 of
                     None \<Rightarrow> None
                   | Some e \<Rightarrow>
                       Some (scale10 (of_nat (digits_val (ip @ fp))) (e - int (length fp)))))
          else if ip = [] then None
          else (case parse_exponent r1 of
                  None \<Rightarrow> None
                | Some e \<Rightarrow> Some (scale10 (of_nat (digits_val ip)) e)))"

definition is_bin :: "char \<Rightarrow> bool" where
  "is_bin c = (c = CHR ''0'' \<or> c = CHR ''1'')"

definition is_oct :: "char \<Rightarrow> bool" where
  "is_oct c = (CHR ''0'' \<le> c \<and> c \<le> CHR ''7'')"

definition parse_radix :: "string \<Rightarrow> jsnum option" where
  "parse_radix t =
     (case t of
        a # b # ds \<Rightarrow>
          if a \<noteq> CHR ''0'' then None
          else if b = CHR ''x'' \<or> b = CHR ''X'' then
            Some (if ds \<noteq> [] \<and> list_all is_hex ds then js_norm (of_nat (radix_val 16 ds)) else NaN)
          else if b = CHR ''o'' \<or> b = CHR ''O'' then
            Some (if ds \<noteq> [] \<and> list_all is_oct ds then js_norm (of_nat (radix_val 8 ds)) else NaN)
          else if b = CHR ''b'' \<or> b = CHR ''B'' then
            Some (if ds \<noteq> [] \<and> list_all is_bin ds then js_norm (of_nat (radix_val 2 ds)) else NaN)
          else None
      | _ \<Rightarrow> None)"

definition parse_signed :: "string \<Rightarrow> jsnum" where
  "parse_signed t =
     (let neg = (case t of [] \<Rightarrow> False | c # _ \<Rightarrow> c = CHR ''-'');
          r = (case t of [] \<Rightarrow> [] | c # u \<Rightarrow> if c = CHR ''+'' \<or> c = CHR ''-'' then u else t)
      in if r = ''Infinity'' then (if neg then NegInf else PosInf)
         else (case parse_decimal r of
                 None \<Rightarrow> NaN
               | Some q \<Rightarrow> js_norm (if neg then - q else q)))"

definition js_Number :: "string \<Rightarrow> jsnum" where
  "js_Number s =
     (let t = trim s in
      if t = [] then Fin 0
      else (case parse_radix t of Some n \<Rightarrow> n | None \<Rightarrow> parse_signed t))"

section \<open>The meter numeric-parsing chain\<close>

text \<open>
  Values of a document: null, booleans, numbers, strings, and references to the arrays
  and objects of a store (a list of objects, a reference being an index). An object is
  its entries in the order of \<^verbatim>\<open>Object.entries\<close>. A store can hold aliased and
  self-referential structures; what \<^verbatim>\<open>JSON.parse\<close> builds is a tree in it.
\<close>

datatype val = VNull | VBool bool | VNum jsnum | VStr string | VRef nat

datatype obj = Arr "val list" | Obj "(string \<times> val) list"

type_synonym heap = "obj list"

text \<open>The type \<^verbatim>\<open>string | number\<close> of \<^verbatim>\<open>meterValueRaw\<close>.\<close>

datatype raw_repr = RStr string | RNum jsnum

record meter_parse =
  meterValue :: "jsnum option"
  meterValueRaw :: "raw_repr option"

text \<open>\<^verbatim>\<open>s.replace(",", ".")\<close>: the first comma only.\<close>

fun replace_comma :: "string \<Rightarrow> string" where
  "replace_comma [] = []"
| "replace_comma (c # cs) = (if c = CHR '','' then CHR ''.'' # cs else c # replace_comma cs)"

text \<open>\<^verbatim>\<open>s.match(/^(\d{5})(\d{1,3})$/)\<close>: the two groups.\<close>

definition compact_match :: "string \<Rightarrow> (string \<times> string) option" where
  "compact_match s =
     (if list_all is_digit s \<and> 6 \<le> length s \<and> length s \<le> 8
      then Some (take 5 s, drop 5 s) else None)"

text \<open>
  \<^verbatim>\<open>/-?\d+(?:\.\d+)?/\<close> matched at the start of a string, and its leftmost match
  in a string.
\<close>

definition match_num_at :: "string \<Rightarrow> string option" where
  "match_num_at s =
     (let sg = (case s of [] \<Rightarrow> [] | c # _ \<Rightarrow> if c = CHR ''-'' then [c] else []);
          r = drop (length sg) s;
          ip = takeWhile is_digit r;
          r1 = dropWhile is_digit r
      in if ip = [] then None
         else (case r1 of
                 [] \<Rightarrow> Some (sg @ ip)
               | c # r2 \<Rightarrow>
                   if c = CHR ''.'' \<and> takeWhile is_digit r2 \<noteq> []
                   then Some (sg @ ip @ [c] @ takeWhile is_digit r2)
                   else Some (sg @ ip)))"

fun first_num :: "string \<Rightarrow> string option" where
  "first_num [] = None"
| "first_num (c # cs) =
     (case match_num_at (c # cs) of Some m \<Rightarrow> Some m | None \<Rightarrow> first_num cs)"

definition parse_compact :: "string \<Rightarrow> meter_parse option" where
  "parse_compact s =
     (case compact_match s of
        None \<Rightarrow> None
      | Some g \<Rightarrow>
          (let n = js_Number (fst g @ ''.'' @ snd g) in
           if isFinite n then Some \<lparr>meterValue = Some n, meterValueRaw = Some (RStr s)\<rparr>
           else None))"

definition parse_first_num :: "string \<Rightarrow> meter_parse option" where
  "parse_first_num s =
     (case first_num (replace_comma s) of
        None \<Rightarrow> None
      | Some m \<Rightarrow>
          (let n = js_Number m in
           if isFinite n then Some \<lparr>meterValue = Some n, meterValueRaw = Some (RStr s)\<rparr>
           else None))"

text \<open>
  \<^verbatim>\<open>parseMeterNumber(raw)\<close>; the argument is \<open>None\<close> for \<^verbatim>\<open>undefined\<close>.
\<close>

definition parseMeterNumber :: "val option \<Rightarrow> meter_parse" where
  "parseMeterNumber raw =
     (case raw of
        Some (VNum n) \<Rightarrow>
          \<lparr>meterValue = (if isFinite n then Some n else None),
           meterValueRaw = (if isFinite n then Some (RNum n) else None)\<rparr>
      | Some (VStr str) \<Rightarrow>
          (let s = trim str in
           if s = [] then \<lparr>meterValue = None, meterValueRaw = None\<rparr>
           else
             (let direct = js_Number (replace_comma s) in
              if isFinite direct then \<lparr>meterValue = Some direct, meterValueRaw = Some (RStr s)\<rparr>
              else (case parse_compact s of
                      Some r \<Rightarrow> r
                    | None \<Rightarrow>
                        (case parse_first_num s of
                           Some r \<Rightarrow> r
                         | None \<Rightarrow> \<lparr>meterValue = None, meterValueRaw = Some (RStr s)\<rparr>))))
      | _ \<Rightarrow> \<lparr>meterValue = None, meterValueRaw = None\<rparr>)"

section \<open>The field resolver\<close>

definition deref :: "heap \<Rightarrow> val \<Rightarrow> obj option" where
  "deref h v = (case v of VRef a \<Rightarrow> if a < length h then Some (h ! a) else None | _ \<Rightarrow> None)"

text \<open>The entries of a value that is a record (a non-array object), the items of an array.\<close>

definition entries :: "heap \<Rightarrow> val \<Rightarrow> (string \<times> val) list option" where
  "entries h v = (case deref h v of Some (Obj es) \<Rightarrow> Some es | _ \<Rightarrow> None)"

definition items :: "heap \<Rightarrow> val \<Rightarrow> val list option" where
  "items h v = (case deref h v of Some (Arr xs) \<Rightarrow> Some xs | _ \<Rightarrow> None)"

text \<open>\<^verbatim>\<open>asRecord(v)\<close>: the value itself when it is a record, else null (\<open>None\<close>).\<close>

definition asRecord :: "heap \<Rightarrow> val option \<Rightarrow> val option" where
  "asRecord h v =
     (case v of None \<Rightarrow> None | Some w \<Rightarrow> if entries h w \<noteq> None then Some w else None)"

text \<open>\<^verbatim>\<open>numOrNull(v)\<close>; \<open>None\<close> is \<^verbatim>\<open>undefined\<close> on the way in, null on the way out.\<close>

definition numOrNull :: "val option \<Rightarrow> jsnum option" where
  "numOrNull v =
     (case v of
        Some (VNum n) \<Rightarrow> if isFinite n then Some n else None
      | Some (VStr s) \<Rightarrow> (let n = js_Number s in if isFinite n then Some n else None)
      | _ \<Rightarrow> None)"

text \<open>A path segment is a string or a number.\<close>

datatype seg = Key string | Idx int

text \<open>
  \<^verbatim>\<open>getDeep(obj, path)\<close>; \<open>None\<close> is \<^verbatim>\<open>undefined\<close>. The test
  \<^verbatim>\<open>seg in rec\<close> also finds what a record inherits from
  \<^verbatim>\<open>Object.prototype\<close>; no path of the code names such a property, and the model
  looks at the entries only.
\<close>

fun getDeep :: "heap \<Rightarrow> val \<Rightarrow> seg list \<Rightarrow> val option" where
  "getDeep h cur [] = Some cur"
| "getDeep h cur (Idx i # path) =
     (case items h cur of
        None \<Rightarrow> None
      | Some xs \<Rightarrow>
          if i < 0 \<or> int (length xs) \<le> i then None
          else getDeep h (xs ! nat i) path)"
| "getDeep h cur (Key k # path) =
     (case entries h cur of
        None \<Rightarrow> None
      | Some es \<Rightarrow>
          (case map_of es k of
             None \<Rightarrow> None
           | Some w \<Rightarrow> getDeep h w path))"

fun firstDefined :: "heap \<Rightarrow> val \<Rightarrow> seg list list \<Rightarrow> val option" where
  "firstDefined h v [] = None"
| "firstDefined h v (p # ps) =
     (case getDeep h v p of
        None \<Rightarrow> firstDefined h v ps
      | Some w \<Rightarrow> if w \<noteq> VNull then Some w else firstDefined h v ps)"

subsection \<open>The depth-bounded keyword search\<close>

text \<open>
  The state of the loop of \<^verbatim>\<open>findFirstKeyDeep\<close>: the stack (its top first) and the
  values seen, or the value returned (\<open>None\<close> for \<^verbatim>\<open>undefined\<close>).
\<close>

datatype fk_state = Running "(val \<times> nat) list" "val list" | Returned "val option"

text \<open>The loop over the entries of a record: a wanted key with a non-null value returns.\<close>

fun scan_entries ::
  "string list \<Rightarrow> nat \<Rightarrow> (string \<times> val) list \<Rightarrow> (val \<times> nat) list \<Rightarrow> val + (val \<times> nat) list" where
  "scan_entries wanted d [] st = Inr st"
| "scan_entries wanted d ((k, x) # es) st =
     (if k \<in> set wanted \<and> x \<noteq> VNull then Inl x
      else scan_entries wanted d es ((x, d + 1) # st))"

text \<open>One iteration of the \<^verbatim>\<open>while\<close> loop.\<close>

definition fk_step :: "heap \<Rightarrow> string list \<Rightarrow> nat \<Rightarrow> (val \<times> nat) list \<Rightarrow> val list \<Rightarrow> fk_state" where
  "fk_step h wanted maxDepth stack seen =
     (case stack of
        [] \<Rightarrow> Returned None
      | (v, d) # st \<Rightarrow>
          if v = VNull \<or> v \<in> set seen \<or> maxDepth < d then Running st seen
          else (case deref h v of
                  Some (Arr xs) \<Rightarrow> Running (rev (map (\<lambda>x. (x, d + 1)) xs) @ st) (v # seen)
                | Some (Obj es) \<Rightarrow>
                    (case scan_entries wanted d es st of
                       Inl x \<Rightarrow> Returned (Some x)
                     | Inr st' \<Rightarrow> Running st' (v # seen))
                | None \<Rightarrow> Running st (v # seen)))"

text \<open>The references of the store that are not yet seen: what the loop runs out of.\<close>

definition unseen :: "heap \<Rightarrow> val list \<Rightarrow> nat set" where
  "unseen h seen = {a. a < length h \<and> VRef a \<notin> set seen}"

lemma finite_unseen: "finite (unseen h seen)"
  by (simp add: unseen_def)

lemma unseen_Cons_subset: "unseen h (v # seen) \<subseteq> unseen h seen"
  by (auto simp: unseen_def)

lemma unseen_Cons_less:
  assumes "deref h v = Some ob" and "v \<notin> set seen"
  shows "card (unseen h (v # seen)) < card (unseen h seen)"
proof -
  from assms(1) obtain a where v: "v = VRef a" and a: "a < length h"
    by (auto simp: deref_def split: val.splits if_splits)
  have "a \<in> unseen h seen" using v a assms(2) by (simp add: unseen_def)
  moreover have "a \<notin> unseen h (v # seen)" using v by (simp add: unseen_def)
  ultimately have "unseen h (v # seen) \<subset> unseen h seen"
    using unseen_Cons_subset [of h v seen] by blast
  then show ?thesis by (rule psubset_card_mono [OF finite_unseen])
qed

lemma fk_step_decreases:
  assumes "fk_step h w m stack seen = Running st' seen'"
  shows "card (unseen h seen') < card (unseen h seen)
     \<or> (card (unseen h seen') \<le> card (unseen h seen) \<and> length st' < length stack)"
proof (cases stack)
  case Nil
  with assms show ?thesis by (simp add: fk_step_def)
next
  case (Cons p st)
  obtain v d where p: "p = (v, d)" by (cases p)
  show ?thesis
  proof (cases "v = VNull \<or> v \<in> set seen \<or> m < d")
    case True
    with assms Cons p show ?thesis by (auto simp: fk_step_def)
  next
    case False
    show ?thesis
    proof (cases "deref h v")
      case None
      with assms Cons p False have "st' = st" "seen' = v # seen"
        by (auto simp: fk_step_def)
      then show ?thesis
        using Cons card_mono [OF finite_unseen unseen_Cons_subset, of h v seen] by simp
    next
      case (Some ob)
      with assms Cons p False have "seen' = v # seen"
        by (auto simp: fk_step_def split: obj.splits sum.splits)
      then show ?thesis using unseen_Cons_less [OF Some] False by simp
    qed
  qed
qed

function fk_loop :: "heap \<Rightarrow> string list \<Rightarrow> nat \<Rightarrow> (val \<times> nat) list \<Rightarrow> val list \<Rightarrow> val option" where
  "fk_loop h wanted maxDepth stack seen =
     (case fk_step h wanted maxDepth stack seen of
        Returned r \<Rightarrow> r
      | Running st' seen' \<Rightarrow> fk_loop h wanted maxDepth st' seen')"
  by pat_completeness auto
termination
proof (relation "measures [\<lambda>(h, w, m, st, seen). card (unseen h seen),
    \<lambda>(h, w, m, st, seen). length st]")
  show "wf (measures [\<lambda>(h, w, m, st, seen). card (unseen h seen),
    \<lambda>(h :: heap, w :: string list, m :: nat, st :: (val \<times> nat) list, seen :: val list).
      length st])"
    by simp
next
  fix h wanted maxDepth stack seen st' seen'
  assume "fk_step h wanted maxDepth stack seen = Running st' seen'"
  from fk_step_decreases [OF this]
  show "((h, wanted, maxDepth, st', seen'), (h, wanted, maxDepth, stack, seen))
    \<in> measures [\<lambda>(h, w, m, st, seen). card (unseen h seen),
        \<lambda>(h, w, m, st, seen). length st]"
    by auto
qed

declare fk_loop.simps [simp del]

text \<open>\<^verbatim>\<open>findFirstKeyDeep(root, keys, maxDepth)\<close>.\<close>

definition findFirstKeyDeep :: "heap \<Rightarrow> val \<Rightarrow> string list \<Rightarrow> nat \<Rightarrow> val option" where
  "findFirstKeyDeep h rt keys maxDepth = fk_loop h keys maxDepth [(rt, 0)] []"

text \<open>The state after a number of iterations of the loop.\<close>

fun fk_iter :: "heap \<Rightarrow> string list \<Rightarrow> nat \<Rightarrow> nat \<Rightarrow> fk_state \<Rightarrow> fk_state" where
  "fk_iter h w m 0 s = s"
| "fk_iter h w m (Suc n) s =
     (case s of
        Returned r \<Rightarrow> Returned r
      | Running st seen \<Rightarrow> fk_iter h w m n (fk_step h w m st seen))"

text \<open>
  The values one edge below a value, and the values a given number of edges below the
  root.
\<close>

definition children :: "heap \<Rightarrow> val \<Rightarrow> val list" where
  "children h v =
     (case deref h v of
        Some (Arr xs) \<Rightarrow> xs
      | Some (Obj es) \<Rightarrow> map snd es
      | None \<Rightarrow> [])"

fun level :: "heap \<Rightarrow> val \<Rightarrow> nat \<Rightarrow> val list" where
  "level h rt 0 = [rt]"
| "level h rt (Suc d) = concat (map (children h) (level h rt d))"

section \<open>The runtime\<close>

text \<open>
  What the code takes from the JavaScript runtime and does not define: the clock, the
  base64 and UTF-8 codecs of \<^verbatim>\<open>Buffer\<close>, \<^verbatim>\<open>JSON.parse\<close> (its result
  lives in the store; \<open>None\<close> when it throws), \<^verbatim>\<open>JSON.stringify\<close>
  (\<open>None\<close> when it throws, as it does on a cyclic structure),
  \<^verbatim>\<open>String\<close> on a number and on an array (which joins the conversions of its
  items; \<open>None\<close> when it throws because one of them does),
  \<^verbatim>\<open>new Date(s).getTime()\<close> (\<open>None\<close> for an invalid date, whose time is
  NaN), and the local calendar date of an instant in a time zone (\<open>None\<close> for a zone
  \<^verbatim>\<open>Intl.DateTimeFormat\<close> rejects). The last one, \<open>bind_text\<close>, is what a
  \<^verbatim>\<open>TEXT\<close> column holds once the database driver has bound a value that is
  not a string (\<open>None\<close> when the driver refuses the value and throws). Every theorem
  holds for every such runtime.
\<close>

datatype js_error = RangeError | TypeError | SqliteError

type_synonym byte = "8 word"

record env =
  now_iso :: string
  now_ms :: int
  from_base64 :: "string \<Rightarrow> byte list"
  utf8_string :: "byte list \<Rightarrow> string"
  json_parse :: "string \<Rightarrow> val option"
  json_stringify :: "heap \<Rightarrow> val \<Rightarrow> string option"
  num_string :: "jsnum \<Rightarrow> string"
  array_string :: "heap \<Rightarrow> val \<Rightarrow> string option"
  date_ms :: "string \<Rightarrow> int option"
  local_date :: "string \<Rightarrow> (int \<Rightarrow> string) option"
  bind_text :: "val \<Rightarrow> string option"

text \<open>
  \<^verbatim>\<open>String(v)\<close>; \<open>None\<close> when it throws a \<^verbatim>\<open>TypeError\<close>. A record is
  converted by its \<^verbatim>\<open>toString\<close>: the one it inherits gives
  \<^verbatim>\<open>[object Object]\<close>, but an entry of that name hides it, and since no value of
  a document is a function the conversion then finds nothing to call (the inherited
  \<^verbatim>\<open>valueOf\<close> returns the record itself) and throws.
\<close>

definition js_String :: "env \<Rightarrow> heap \<Rightarrow> val \<Rightarrow> string option" where
  "js_String e h v =
     (case v of
        VStr s \<Rightarrow> Some s
      | VNull \<Rightarrow> Some ''null''
      | VBool b \<Rightarrow> Some (if b then ''true'' else ''false'')
      | VNum n \<Rightarrow> Some (num_string e n)
      | VRef a \<Rightarrow>
          (case entries h v of
             Some es \<Rightarrow> if map_of es ''toString'' = None then Some ''[object Object]'' else None
           | None \<Rightarrow> array_string e h v))"

text \<open>The truth value of a value; \<open>None\<close> is \<^verbatim>\<open>undefined\<close>.\<close>

definition truthy :: "val option \<Rightarrow> bool" where
  "truthy v =
     (case v of
        None \<Rightarrow> False
      | Some VNull \<Rightarrow> False
      | Some (VBool b) \<Rightarrow> b
      | Some (VNum n) \<Rightarrow> n \<noteq> NaN \<and> n \<noteq> Fin 0
      | Some (VStr s) \<Rightarrow> s \<noteq> []
      | Some (VRef a) \<Rightarrow> True)"

text \<open>The optional property read \<^verbatim>\<open>v?.k\<close>.\<close>

definition get_prop :: "heap \<Rightarrow> val option \<Rightarrow> string \<Rightarrow> val option" where
  "get_prop h v k =
     (case v of
        None \<Rightarrow> None
      | Some w \<Rightarrow> (case entries h w of None \<Rightarrow> None | Some es \<Rightarrow> map_of es k))"

section \<open>The payload normalizer\<close>

text \<open>\<^verbatim>\<open>HEX16 = /^[0-9a-fA-F]{16}$/\<close>.\<close>

definition HEX16 :: "string \<Rightarrow> bool" where
  "HEX16 s = (length s = 16 \<and> list_all is_hex s)"

text \<open>\<^verbatim>\<open>buf.toString("hex")\<close>.\<close>

definition hex_digit :: "nat \<Rightarrow> char" where
  "hex_digit n = ''0123456789abcdef'' ! n"

definition hex_of_byte :: "byte \<Rightarrow> string" where
  "hex_of_byte b = [hex_digit (unat b div 16), hex_digit (unat b mod 16)]"

definition hex_of_bytes :: "byte list \<Rightarrow> string" where
  "hex_of_bytes bs = concat (map hex_of_byte bs)"

record dev_eui_norm =
  hex :: "string option"
  base64 :: "string option"

definition normalizeDevEui :: "env \<Rightarrow> val option \<Rightarrow> dev_eui_norm" where
  "normalizeDevEui e v =
     (let s = (case v of Some (VStr t) \<Rightarrow> trim t | _ \<Rightarrow> []) in
      if s = [] then \<lparr>hex = None, base64 = None\<rparr>
      else if HEX16 s then \<lparr>hex = Some (toLowerCase s), base64 = None\<rparr>
      else
        (let buf = from_base64 e s in
         if length buf = 8 then \<lparr>hex = Some (hex_of_bytes buf), base64 = Some s\<rparr>
         else \<lparr>hex = Some (toLowerCase s), base64 = None\<rparr>))"

text \<open>\<^verbatim>\<open>parseJsonObject(raw)\<close> and \<^verbatim>\<open>decodeBase64Ascii(v)\<close>.\<close>

definition parseJsonObject :: "env \<Rightarrow> heap \<Rightarrow> val option \<Rightarrow> val option" where
  "parseJsonObject e h raw =
     (case raw of
        Some (VStr s) \<Rightarrow> asRecord h (json_parse e s)
      | _ \<Rightarrow> None)"

definition decodeBase64Ascii :: "env \<Rightarrow> val option \<Rightarrow> string option" where
  "decodeBase64Ascii e v =
     (case v of
        Some (VStr s) \<Rightarrow> if trim s = [] then None else Some (utf8_string e (from_base64 e s))
      | _ \<Rightarrow> None)"

record signal =
  sig_rssi :: "jsnum option"
  sig_snr :: "jsnum option"

text \<open>The RSSI and the SNR \<^verbatim>\<open>bestSignal\<close> reads from one reception record.\<close>

definition item_rssi :: "heap \<Rightarrow> val \<Rightarrow> jsnum option" where
  "item_rssi h item = numOrNull (firstDefined h item [[Key ''rssi''], [Key ''channel_rssi'']])"

definition item_snr :: "heap \<Rightarrow> val \<Rightarrow> jsnum option" where
  "item_snr h item =
     numOrNull (firstDefined h item [[Key ''loRaSNR''], [Key ''loraSNR''], [Key ''snr'']])"

text \<open>The loop of \<^verbatim>\<open>bestSignal\<close>, from the best RSSI and SNR so far.\<close>

fun bestSignal_loop :: "heap \<Rightarrow> val list \<Rightarrow> jsnum option \<Rightarrow> jsnum option \<Rightarrow> signal" where
  "bestSignal_loop h [] bestRssi bestSnr = \<lparr>sig_rssi = bestRssi, sig_snr = bestSnr\<rparr>"
| "bestSignal_loop h (item # rest) bestRssi bestSnr =
     (let r = item_rssi h item; s = item_snr h item
      in case r of
           None \<Rightarrow> bestSignal_loop h rest bestRssi bestSnr
         | Some rv \<Rightarrow>
             if (case bestRssi of None \<Rightarrow> True | Some b \<Rightarrow> js_gt rv b)
             then bestSignal_loop h rest (Some rv) s
             else bestSignal_loop h rest bestRssi bestSnr)"

definition bestSignal :: "heap \<Rightarrow> val list \<Rightarrow> signal" where
  "bestSignal h rxItems = bestSignal_loop h rxItems None None"

text \<open>\<^verbatim>\<open>Array.isArray(v) ? v : []\<close>.\<close>

definition array_or_empty :: "heap \<Rightarrow> val option \<Rightarrow> val list" where
  "array_or_empty h v =
     (case v of
        None \<Rightarrow> []
      | Some w \<Rightarrow> (case items h w of None \<Rightarrow> [] | Some xs \<Rightarrow> xs))"

text \<open>\<^verbatim>\<open>ascii.replace(/^(\d{5})(\d+)/, "$1.$2")\<close>.\<close>

definition regroup :: "string \<Rightarrow> string" where
  "regroup s =
     (if 6 \<le> length s \<and> list_all is_digit (take 6 s) then take 5 s @ ''.'' @ drop 5 s else s)"

record parsed =
  provider :: string
  devEui :: "string option"
  devEuiB64 :: "string option"
  deviceName :: "val option"
  applicationId :: "val option"
  applicationName :: "val option"
  p_at :: string
  deduplicationId :: "string option"
  p_rssi :: "jsnum option"
  p_snr :: "jsnum option"
  p_battery_mv :: "jsnum option"
  p_meterValue :: "jsnum option"
  p_meterValueRaw :: "raw_repr option"
  decodedObj :: "val option"
  payloadObj :: val

definition meter_keys :: "string list" where
  "meter_keys = [''meterValue'', ''meter_value'', ''meter'', ''reading'', ''counter'',
     ''message'', ''value'']"

definition battery_keys :: "string list" where
  "battery_keys = [''battery_mv'', ''batteryMv'', ''battery_mV'', ''battery'',
     ''battery_voltage'', ''batteryVoltage'', ''batt'', ''voltage'']"

text \<open>The signal of a document: the best gateway record, then the top-level fields.\<close>

definition rxCandidates :: "heap \<Rightarrow> val \<Rightarrow> val list" where
  "rxCandidates h up =
     array_or_empty h (get_prop h (Some up) ''rxInfo'')
     @ array_or_empty h (get_prop h (get_prop h (Some up) ''uplink_message'') ''rx_metadata'')"

definition top_rssi :: "heap \<Rightarrow> val \<Rightarrow> jsnum option" where
  "top_rssi h up =
     numOrNull (firstDefined h up [[Key ''rssi''], [Key ''uplink_message'', Key ''rssi'']])"

definition top_snr :: "heap \<Rightarrow> val \<Rightarrow> jsnum option" where
  "top_snr h up =
     numOrNull (firstDefined h up [[Key ''loRaSNR''], [Key ''loraSNR''], [Key ''snr''],
       [Key ''uplink_message'', Key ''snr'']])"

definition resolve_rssi :: "heap \<Rightarrow> val \<Rightarrow> jsnum option" where
  "resolve_rssi h up =
     (case sig_rssi (bestSignal h (rxCandidates h up)) of
        Some r \<Rightarrow> Some r
      | None \<Rightarrow> top_rssi h up)"

definition resolve_snr :: "heap \<Rightarrow> val \<Rightarrow> jsnum option" where
  "resolve_snr h up =
     (case sig_snr (bestSignal h (rxCandidates h up)) of
        Some s \<Rightarrow> Some s
      | None \<Rightarrow> top_snr h up)"

text \<open>The three stages that look for the raw meter value.\<close>

definition resolve_meterRaw :: "env \<Rightarrow> heap \<Rightarrow> val \<Rightarrow> val option \<Rightarrow> val option" where
  "resolve_meterRaw e h up decoded =
     (let m0 = firstDefined h up [[Key ''meterValue''], [Key ''meter_value''], [Key ''message''],
                 [Key ''uplink_message'', Key ''decoded_payload'', Key ''meterValue'']];
          m1 = (case (m0, decoded) of
                  (None, Some dobj) \<Rightarrow> findFirstKeyDeep h dobj meter_keys 4
                | _ \<Rightarrow> m0)
      in if m1 = None \<or> m1 = Some VNull then
           (case decodeBase64Ascii e
                   (firstDefined h up [[Key ''data''], [Key ''frm_payload''],
                      [Key ''uplink_message'', Key ''frm_payload''], [Key ''payload_raw'']]) of
              None \<Rightarrow> m1
            | Some ascii \<Rightarrow> if ascii = [] then m1 else Some (VStr (regroup ascii)))
         else m1)"

definition resolve_battery :: "heap \<Rightarrow> val \<Rightarrow> val option \<Rightarrow> jsnum option" where
  "resolve_battery h up decoded =
     (let b0 = numOrNull (firstDefined h up [[Key ''battery_mv''], [Key ''batteryMv''],
                 [Key ''uplink_message'', Key ''decoded_payload'', Key ''battery_mv'']]);
          b1 = (case (b0, decoded) of
                  (None, Some dobj) \<Rightarrow> numOrNull (findFirstKeyDeep h dobj battery_keys 4)
                | _ \<Rightarrow> b0)
      in case b1 of
           None \<Rightarrow> None
         | Some b \<Rightarrow>
             if js_gt b (Fin 0) \<and> js_lt b (Fin 20) then Some (js_round (js_mul b (Fin 1000)))
             else Some b)"

definition devEui_paths :: "seg list list" where
  "devEui_paths =
     [[Key ''deviceInfo'', Key ''devEui''],
      [Key ''end_device_ids'', Key ''dev_eui''],
      [Key ''endDeviceIds'', Key ''devEui''],
      [Key ''device'', Key ''devEui''],
      [Key ''devEui''], [Key ''devEUI''], [Key ''dev_eui''], [Key ''deviceEui'']]"

text \<open>
  The timestamp and the deduplication id, the two fields the normalizer converts with
  \<^verbatim>\<open>String\<close>: \<open>None\<close> when the conversion throws. An absent
  deduplication id stays null.
\<close>

definition resolve_at :: "env \<Rightarrow> heap \<Rightarrow> val \<Rightarrow> string option" where
  "resolve_at e h up =
     (case firstDefined h up [[Key ''time''], [Key ''publishedAt''], [Key ''received_at''],
             [Key ''uplink_message'', Key ''received_at'']] of
        Some t \<Rightarrow> js_String e h t
      | None \<Rightarrow> Some (now_iso e))"

definition resolve_deduplicationId :: "env \<Rightarrow> heap \<Rightarrow> val \<Rightarrow> string option option" where
  "resolve_deduplicationId e h up =
     (case firstDefined h up [[Key ''deduplicationId''], [Key ''deduplication_id''],
             [Key ''uplink_message'', Key ''f_cnt''], [Key ''f_cnt'']] of
        Some v \<Rightarrow> map_option Some (js_String e h v)
      | None \<Rightarrow> Some None)"

text \<open>
  \<^verbatim>\<open>parseLoRaPayload(up)\<close>. Everything but the two conversions is total, so the
  function throws exactly when one of them does, the timestamp's first.
\<close>

definition parseLoRaPayload :: "env \<Rightarrow> heap \<Rightarrow> val \<Rightarrow> js_error + parsed" where
  "parseLoRaPayload e h up =
     (let eui = normalizeDevEui e (firstDefined h up devEui_paths);
          decoded =
            (case asRecord h (firstDefined h up [[Key ''object''], [Key ''decoded_payload''],
                    [Key ''uplink_message'', Key ''decoded_payload'']]) of
               Some d \<Rightarrow> Some d
             | None \<Rightarrow>
                 parseJsonObject e h (firstDefined h up [[Key ''objectJSON''], [Key ''objectJson'']]));
          meter = parseMeterNumber (resolve_meterRaw e h up decoded)
      in case resolve_at e h up of
           None \<Rightarrow> Inl TypeError
         | Some time \<Rightarrow>
             (case resolve_deduplicationId e h up of
                None \<Rightarrow> Inl TypeError
              | Some dedup \<Rightarrow>
                  Inr \<lparr>provider =
                        (if truthy (get_prop h (Some up) ''end_device_ids'') then ''ttn''
                         else if truthy (get_prop h (Some up) ''deviceInfo'') then ''chirpstack''
                         else if truthy (get_prop h (Some up) ''device'') then ''generic-device''
                         else ''generic''),
                      devEui = hex eui,
                      devEuiB64 = base64 eui,
                      deviceName = firstDefined h up
                        [[Key ''deviceInfo'', Key ''deviceName''],
                         [Key ''end_device_ids'', Key ''device_id''],
                         [Key ''endDeviceIds'', Key ''deviceId''],
                         [Key ''device'', Key ''name''],
                         [Key ''deviceName'']],
                      applicationId = firstDefined h up
                        [[Key ''deviceInfo'', Key ''applicationId''],
                         [Key ''end_device_ids'', Key ''application_ids'', Key ''application_id''],
                         [Key ''endDeviceIds'', Key ''applicationIds'', Key ''applicationId''],
                         [Key ''applicationId'']],
                      applicationName = firstDefined h up
                        [[Key ''deviceInfo'', Key ''applicationName''], [Key ''applicationName'']],
                      p_at = time,
                      deduplicationId = dedup,
                      p_rssi = resolve_rssi h up,
                      p_snr = resolve_snr h up,
                      p_battery_mv = resolve_battery h up decoded,
                      p_meterValue = meterValue meter,
                      p_meterValueRaw = meterValueRaw meter,
                      decodedObj = decoded,
                      payloadObj = up\<rparr>))"

section \<open>The ingestion store\<close>

text \<open>
  The two tables, as the schema declares them. A table is the list of its rows;
  \<open>uplinks_seq\<close> is the largest \<^verbatim>\<open>id\<close> the \<^verbatim>\<open>AUTOINCREMENT\<close> column
  has given out. The inputs and the rows have the types \<^verbatim>\<open>db.ts\<close> declares.
\<close>

record StoreReadingInput =
  ri_dev_eui :: string
  ri_at :: string
  ri_meter_value :: jsnum
  ri_meter_value_raw :: "raw_repr option"
  ri_device_name :: "string option"
  ri_application_id :: "string option"
  ri_application_name :: "string option"
  ri_deduplication_id :: "string option"
  ri_battery_mv :: "jsnum option"
  ri_rssi :: "jsnum option"
  ri_snr :: "jsnum option"

record StoreUplinkInput =
  ui_dev_eui :: string
  ui_at :: string
  ui_provider :: "string option"
  ui_device_name :: "string option"
  ui_application_id :: "string option"
  ui_application_name :: "string option"
  ui_deduplication_id :: "string option"
  ui_meter_value :: "jsnum option"
  ui_meter_value_raw :: "raw_repr option"
  ui_battery_mv :: "jsnum option"
  ui_rssi :: "jsnum option"
  ui_snr :: "jsnum option"
  ui_decoded_json :: "val option"
  ui_payload_json :: "val option"

record ReadingRow =
  rd_dev_eui :: string
  rd_at :: string
  rd_meter_value :: jsnum
  rd_meter_value_raw :: "string option"
  rd_device_name :: "string option"
  rd_application_id :: "string option"
  rd_application_name :: "string option"
  rd_deduplication_id :: "string option"
  rd_battery_mv :: "jsnum option"
  rd_rssi :: "jsnum option"
  rd_snr :: "jsnum option"

text \<open>The columns an \<^verbatim>\<open>INSERT\<close> into \<^verbatim>\<open>uplinks\<close> names, and a row: these and its id.\<close>

record UplinkCols =
  ul_dev_eui :: string
  ul_at :: string
  ul_provider :: "string option"
  ul_device_name :: "string option"
  ul_application_id :: "string option"
  ul_application_name :: "string option"
  ul_deduplication_id :: "string option"
  ul_meter_value :: "jsnum option"
  ul_meter_value_raw :: "string option"
  ul_battery_mv :: "jsnum option"
  ul_rssi :: "jsnum option"
  ul_snr :: "jsnum option"
  ul_decoded_json :: "string option"
  ul_payload_json :: "string option"

record UplinkRow = UplinkCols +
  ul_id :: nat

record db =
  readings :: "ReadingRow list"
  uplinks :: "UplinkRow list"
  uplinks_seq :: nat

definition empty_db :: db where
  "empty_db = \<lparr>readings = [], uplinks = [], uplinks_seq = 0\<rparr>"

text \<open>
  \<^verbatim>\<open>stmtInsert.run\<close>: the upsert on \<^verbatim>\<open>(dev_eui, at)\<close>. A NaN is bound as
  NULL, which the column \<^verbatim>\<open>meter_value REAL NOT NULL\<close> refuses: the driver throws
  a \<^verbatim>\<open>SqliteError\<close>.
\<close>

definition reading_conflict :: "ReadingRow \<Rightarrow> ReadingRow \<Rightarrow> bool" where
  "reading_conflict new r = (rd_dev_eui r = rd_dev_eui new \<and> rd_at r = rd_at new)"

definition reading_do_update :: "ReadingRow \<Rightarrow> ReadingRow \<Rightarrow> ReadingRow" where
  "reading_do_update new r =
     r\<lparr>rd_meter_value := rd_meter_value new,
       rd_meter_value_raw := rd_meter_value_raw new,
       rd_device_name := rd_device_name new,
       rd_application_id := rd_application_id new,
       rd_application_name := rd_application_name new,
       rd_deduplication_id := rd_deduplication_id new,
       rd_battery_mv := rd_battery_mv new,
       rd_rssi := rd_rssi new,
       rd_snr := rd_snr new\<rparr>"

definition stmtInsert :: "ReadingRow \<Rightarrow> db \<Rightarrow> js_error + db" where
  "stmtInsert new d =
     (if rd_meter_value new = NaN then Inl SqliteError
      else if list_ex (reading_conflict new) (readings d) then
        Inr (d\<lparr>readings :=
          map (\<lambda>r. if reading_conflict new r then reading_do_update new r else r) (readings d)\<rparr>)
      else Inr (d\<lparr>readings := readings d @ [new]\<rparr>))"

text \<open>
  \<^verbatim>\<open>stmtInsertUplink.run\<close>: the upsert on \<^verbatim>\<open>(dev_eui, deduplication_id)\<close>; a
  NULL deduplication id conflicts with no row.
\<close>

definition uplink_conflict :: "UplinkCols \<Rightarrow> UplinkRow \<Rightarrow> bool" where
  "uplink_conflict new r =
     (ul_deduplication_id new \<noteq> None \<and> ul_dev_eui r = ul_dev_eui new
      \<and> ul_deduplication_id r = ul_deduplication_id new)"

definition uplink_do_update :: "UplinkCols \<Rightarrow> UplinkRow \<Rightarrow> UplinkRow" where
  "uplink_do_update new r =
     r\<lparr>ul_at := ul_at new,
       ul_provider := ul_provider new,
       ul_device_name := ul_device_name new,
       ul_application_id := ul_application_id new,
       ul_application_name := ul_application_name new,
       ul_meter_value := ul_meter_value new,
       ul_meter_value_raw := ul_meter_value_raw new,
       ul_battery_mv := ul_battery_mv new,
       ul_rssi := ul_rssi new,
       ul_snr := ul_snr new,
       ul_decoded_json := ul_decoded_json new,
       ul_payload_json := ul_payload_json new\<rparr>"

definition uplink_insert_row :: "UplinkCols \<Rightarrow> nat \<Rightarrow> UplinkRow" where
  "uplink_insert_row new i =
     \<lparr>ul_dev_eui = ul_dev_eui new,
      ul_at = ul_at new,
      ul_provider = ul_provider new,
      ul_device_name = ul_device_name new,
      ul_application_id = ul_application_id new,
      ul_application_name = ul_application_name new,
      ul_deduplication_id = ul_deduplication_id new,
      ul_meter_value = ul_meter_value new,
      ul_meter_value_raw = ul_meter_value_raw new,
      ul_battery_mv = ul_battery_mv new,
      ul_rssi = ul_rssi new,
      ul_snr = ul_snr new,
      ul_decoded_json = ul_decoded_json new,
      ul_payload_json = ul_payload_json new,
      ul_id = i\<rparr>"

definition stmtInsertUplink :: "UplinkCols \<Rightarrow> db \<Rightarrow> db" where
  "stmtInsertUplink new d =
     (if list_ex (uplink_conflict new) (uplinks d) then
        d\<lparr>uplinks :=
          map (\<lambda>r. if uplink_conflict new r then uplink_do_update new r else r) (uplinks d)\<rparr>
      else
        d\<lparr>uplinks := uplinks d @ [uplink_insert_row new (Suc (uplinks_seq d))],
          uplinks_seq := Suc (uplinks_seq d)\<rparr>)"

text \<open>The conversions both store functions apply to their input.\<close>

definition raw_string :: "env \<Rightarrow> raw_repr option \<Rightarrow> string option" where
  "raw_string e r =
     (case r of
        None \<Rightarrow> None
      | Some (RStr s) \<Rightarrow> Some s
      | Some (RNum n) \<Rightarrow> Some (num_string e n))"

definition finite_or_null :: "jsnum option \<Rightarrow> jsnum option" where
  "finite_or_null x = (case x of None \<Rightarrow> None | Some n \<Rightarrow> if isFinite n then Some n else None)"

definition round_or_null :: "jsnum option \<Rightarrow> jsnum option" where
  "round_or_null x =
     (case x of None \<Rightarrow> None | Some n \<Rightarrow> if isFinite n then Some (js_round n) else None)"

text \<open>
  \<^verbatim>\<open>v == null ? null : JSON.stringify(v)\<close>; \<open>None\<close> when
  \<^verbatim>\<open>JSON.stringify\<close> throws.
\<close>

definition stringify_or_null :: "env \<Rightarrow> heap \<Rightarrow> val option \<Rightarrow> string option option" where
  "stringify_or_null e h v =
     (case v of
        None \<Rightarrow> Some None
      | Some w \<Rightarrow> if w = VNull then Some None else map_option Some (json_stringify e h w))"

definition reading_row :: "env \<Rightarrow> StoreReadingInput \<Rightarrow> ReadingRow" where
  "reading_row e input =
     \<lparr>rd_dev_eui = ri_dev_eui input,
      rd_at = ri_at input,
      rd_meter_value = ri_meter_value input,
      rd_meter_value_raw = raw_string e (ri_meter_value_raw input),
      rd_device_name = ri_device_name input,
      rd_application_id = ri_application_id input,
      rd_application_name = ri_application_name input,
      rd_deduplication_id = ri_deduplication_id input,
      rd_battery_mv = round_or_null (ri_battery_mv input),
      rd_rssi = round_or_null (ri_rssi input),
      rd_snr = finite_or_null (ri_snr input)\<rparr>"

definition storeReading :: "env \<Rightarrow> StoreReadingInput \<Rightarrow> db \<Rightarrow> js_error + db" where
  "storeReading e input d = stmtInsert (reading_row e input) d"

text \<open>The deduplication id \<^verbatim>\<open>storeUplink\<close> binds.\<close>

definition uplink_key :: "StoreUplinkInput \<Rightarrow> string" where
  "uplink_key input =
     (case ui_deduplication_id input of
        None \<Rightarrow> ui_dev_eui input @ '':'' @ ui_at input
      | Some i \<Rightarrow> if i = [] then ui_dev_eui input @ '':'' @ ui_at input else i)"

text \<open>
  The parameters \<^verbatim>\<open>storeUplink\<close> binds (\<open>None\<close> when
  \<^verbatim>\<open>JSON.stringify\<close> throws while they are built), and \<^verbatim>\<open>storeUplink\<close>.
\<close>

definition uplink_cols :: "env \<Rightarrow> heap \<Rightarrow> StoreUplinkInput \<Rightarrow> UplinkCols option" where
  "uplink_cols e h input =
     (case stringify_or_null e h (ui_decoded_json input) of
        None \<Rightarrow> None
      | Some decoded_json \<Rightarrow>
          (case stringify_or_null e h (ui_payload_json input) of
             None \<Rightarrow> None
           | Some payload_json \<Rightarrow>
               Some \<lparr>ul_dev_eui = ui_dev_eui input,
                     ul_at = ui_at input,
                     ul_provider = ui_provider input,
                     ul_device_name = ui_device_name input,
                     ul_application_id = ui_application_id input,
                     ul_application_name = ui_application_name input,
                     ul_deduplication_id = Some (uplink_key input),
                     ul_meter_value = finite_or_null (ui_meter_value input),
                     ul_meter_value_raw = raw_string e (ui_meter_value_raw input),
                     ul_battery_mv = round_or_null (ui_battery_mv input),
                     ul_rssi = round_or_null (ui_rssi input),
                     ul_snr = finite_or_null (ui_snr input),
                     ul_decoded_json = decoded_json,
                     ul_payload_json = payload_json\<rparr>))"

definition storeUplink :: "env \<Rightarrow> heap \<Rightarrow> StoreUplinkInput \<Rightarrow> db \<Rightarrow> js_error + db" where
  "storeUplink e h input d =
     (case uplink_cols e h input of
        None \<Rightarrow> Inl TypeError
      | Some new \<Rightarrow> Inr (stmtInsertUplink new d))"

text \<open>The rows of a key.\<close>

definition uplinks_of :: "db \<Rightarrow> string \<Rightarrow> string \<Rightarrow> UplinkRow list" where
  "uplinks_of d dev dedup =
     filter (\<lambda>r. ul_dev_eui r = dev \<and> ul_deduplication_id r = Some dedup) (uplinks d)"

definition readings_of :: "db \<Rightarrow> string \<Rightarrow> string \<Rightarrow> ReadingRow list" where
  "readings_of d dev t = filter (\<lambda>r. rd_dev_eui r = dev \<and> rd_at r = t) (readings d)"

subsection \<open>Read operations\<close>




text \<open>
  \<^verbatim>\<open>xs.slice(start)\<close>: the start is truncated to an integer (NaN to 0), and a
  negative one counts from the end.
\<close>

definition slice_from :: "jsnum \<Rightarrow> 'a list \<Rightarrow> 'a list" where
  "slice_from start xs =
     (case start of
        Fin q \<Rightarrow>
          if q < 0 then drop (nat (int (length xs) + \<lceil>q\<rceil>)) xs
          else drop (nat \<lfloor>q\<rfloor>) xs
      | NaN \<Rightarrow> xs
      | PosInf \<Rightarrow> []
      | NegInf \<Rightarrow> xs)"



section \<open>The aggregator\<close>












section \<open>The webhook\<close>

record request =
  req_api_key :: "string option"
  req_authorization :: "string option"
  req_body :: "val option"

record response =
  res_status :: nat
  res_body :: string

datatype event_body =
    UpMissing string "string option" "jsnum option" string
  | Up string string "jsnum option" "jsnum option" "jsnum option" "jsnum option" string

record event =
  ev_ts :: string
  ev_body :: event_body

record sse_msg =
  sse_devEui :: string
  sse_at :: string
  sse_meterValue :: "jsnum option"
  sse_battery_mv :: "jsnum option"

record server =
  srv_db :: db
  lastEvents :: "event list"
  sse_sent :: "sse_msg list"

definition isWebhookAuthorized :: "string \<Rightarrow> request \<Rightarrow> bool" where
  "isWebhookAuthorized expected req =
     (if expected = [] then True
      else
        (let apiKey = (case req_api_key req of None \<Rightarrow> [] | Some k \<Rightarrow> k);
             auth = (case req_authorization req of None \<Rightarrow> [] | Some a \<Rightarrow> a);
             bearer = (if take 7 auth = ''Bearer '' then trim (drop 7 auth) else [])
         in apiKey = expected \<or> bearer = expected))"

definition pushEvent :: "env \<Rightarrow> event_body \<Rightarrow> server \<Rightarrow> server" where
  "pushEvent e b srv =
     (let evs = lastEvents srv @ [\<lparr>ev_ts = now_iso e, ev_body = b\<rparr>] in
      srv\<lparr>lastEvents := (if 50 < length evs then tl evs else evs)\<rparr>)"

definition sseBroadcast :: "sse_msg \<Rightarrow> server \<Rightarrow> server" where
  "sseBroadcast m srv = srv\<lparr>sse_sent := sse_sent srv @ [m]\<rparr>"

text \<open>
  The three names reach the store through an unchecked cast of the document's value to
  \<^verbatim>\<open>string | null\<close>. A string is stored as it is; for any other value the
  column holds what the runtime's \<open>bind_text\<close> says, and the write throws when the
  driver refuses the value.
\<close>

definition bound_name :: "env \<Rightarrow> val option \<Rightarrow> string option option" where
  "bound_name e v =
     (case v of
        None \<Rightarrow> Some None
      | Some w \<Rightarrow>
          (case w of
             VNull \<Rightarrow> Some None
           | VStr s \<Rightarrow> Some (Some s)
           | _ \<Rightarrow> map_option Some (bind_text e w)))"

text \<open>
  The two writes of the \<^verbatim>\<open>try\<close> block: the uplink, then the reading when there is
  a meter value. The result is the database after them and the error caught, if any.
\<close>

definition store_parsed :: "env \<Rightarrow> heap \<Rightarrow> string \<Rightarrow> parsed \<Rightarrow> db \<Rightarrow> db \<times> js_error option" where
  "store_parsed e h dev p d =
     (case (bound_name e (deviceName p), bound_name e (applicationId p),
            bound_name e (applicationName p)) of
        (Some device_name, Some application_id, Some application_name) \<Rightarrow>
          (case storeUplink e h
                  \<lparr>ui_dev_eui = dev,
                   ui_at = p_at p,
                   ui_provider = Some (provider p),
                   ui_device_name = device_name,
                   ui_application_id = application_id,
                   ui_application_name = application_name,
                   ui_deduplication_id = deduplicationId p,
                   ui_meter_value = p_meterValue p,
                   ui_meter_value_raw = p_meterValueRaw p,
                   ui_battery_mv = p_battery_mv p,
                   ui_rssi = p_rssi p,
                   ui_snr = p_snr p,
                   ui_decoded_json = decodedObj p,
                   ui_payload_json = Some (payloadObj p)\<rparr> d of
             Inl err \<Rightarrow> (d, Some err)
           | Inr d1 \<Rightarrow>
               (case p_meterValue p of
                  None \<Rightarrow> (d1, None)
                | Some mv \<Rightarrow>
                    (case storeReading e
                            \<lparr>ri_dev_eui = dev,
                             ri_at = p_at p,
                             ri_meter_value = mv,
                             ri_meter_value_raw = p_meterValueRaw p,
                             ri_device_name = device_name,
                             ri_application_id = application_id,
                             ri_application_name = application_name,
                             ri_deduplication_id = deduplicationId p,
                             ri_battery_mv = p_battery_mv p,
                             ri_rssi = p_rssi p,
                             ri_snr = p_snr p\<rparr> d1 of
                       Inl err \<Rightarrow> (d1, Some err)
                     | Inr d2 \<Rightarrow> (d2, None))))
      | _ \<Rightarrow> (d, Some TypeError))"

text \<open>
  \<^verbatim>\<open>handleLoRaWebhook(req, res)\<close>: the response, or the error the handler throws
  without responding, and the server after it. The body is \<^verbatim>\<open>req.body || {}\<close>,
  the empty object being a new one of the store. Of what the handler prints to the
  console only the \<^verbatim>\<open>JSON.stringify(up)\<close> of its first line is modelled, which
  can throw; like the normalizer it runs outside the \<^verbatim>\<open>try\<close> block.
\<close>

definition ok_response :: response where
  "ok_response = \<lparr>res_status = 200, res_body = ''ok''\<rparr>"

definition handle_stored :: "env \<Rightarrow> string \<Rightarrow> parsed \<Rightarrow> server \<Rightarrow> db \<times> js_error option \<Rightarrow> server" where
  "handle_stored e dev p srv outcome =
     (case snd outcome of
        Some err \<Rightarrow> srv\<lparr>srv_db := fst outcome\<rparr>
      | None \<Rightarrow>
          sseBroadcast
            \<lparr>sse_devEui = dev, sse_at = p_at p, sse_meterValue = p_meterValue p,
             sse_battery_mv = p_battery_mv p\<rparr>
            (pushEvent e
               (Up (provider p) dev (p_meterValue p) (p_battery_mv p) (p_rssi p) (p_snr p) (p_at p))
               (srv\<lparr>srv_db := fst outcome\<rparr>)))"

text \<open>\<^verbatim>\<open>req.body || {}\<close>: the document, and the store that holds it.\<close>

definition body_heap :: "heap \<Rightarrow> request \<Rightarrow> heap" where
  "body_heap h req = (if truthy (req_body req) then h else h @ [Obj []])"

definition body_doc :: "heap \<Rightarrow> request \<Rightarrow> val" where
  "body_doc h req =
     (case req_body req of
        None \<Rightarrow> VRef (length h)
      | Some b \<Rightarrow> if truthy (req_body req) then b else VRef (length h))"

text \<open>The test \<^verbatim>\<open>!devEui\<close>, and the value of \<^verbatim>\<open>devEui ?? devEuiB64\<close>.\<close>

definition no_identity :: "parsed \<Rightarrow> bool" where
  "no_identity p = (case devEui p of None \<Rightarrow> True | Some dev \<Rightarrow> dev = [])"

definition identity_shown :: "parsed \<Rightarrow> string option" where
  "identity_shown p = (case devEui p of None \<Rightarrow> devEuiB64 p | Some dev \<Rightarrow> Some dev)"

text \<open>What the handler does with the normalized uplink.\<close>

definition handle_parsed :: "env \<Rightarrow> heap \<Rightarrow> parsed \<Rightarrow> server \<Rightarrow> server" where
  "handle_parsed e h p srv =
     (if no_identity p then
        pushEvent e (UpMissing (provider p) (identity_shown p) (p_meterValue p) (p_at p)) srv
      else
        (case devEui p of
           None \<Rightarrow> srv
         | Some dev \<Rightarrow> handle_stored e dev p srv (store_parsed e h dev p (srv_db srv))))"

definition handleLoRaWebhook ::
  "env \<Rightarrow> string \<Rightarrow> heap \<Rightarrow> request \<Rightarrow> server \<Rightarrow> (js_error + response) \<times> server" where
  "handleLoRaWebhook e expected h req srv =
     (if \<not> isWebhookAuthorized expected req then
        (Inr \<lparr>res_status = 401, res_body = ''unauthorized''\<rparr>, srv)
      else
        (case json_stringify e (body_heap h req) (body_doc h req) of
           None \<Rightarrow> (Inl TypeError, srv)
         | Some logged \<Rightarrow>
             (case parseLoRaPayload e (body_heap h req) (body_doc h req) of
                Inl err \<Rightarrow> (Inl err, srv)
              | Inr p \<Rightarrow> (Inr ok_response, handle_parsed e (body_heap h req) p srv))))"

section \<open>A runtime for the examples\<close>

text \<open>
  The examples need one runtime to run on. Its base64 decoder reads the standard and the
  URL-safe alphabet up to the first padding character and skips every other character;
  its clock, its dates and its one time zone (two hours east of UTC) are those of the
  examples. Its database driver refuses to bind a boolean, an array or an object, as the
  driver of the repository does (it binds numbers, strings, big integers, buffers and
  null). The parts no example reaches are constant.
\<close>

definition sextet :: "char \<Rightarrow> nat option" where
  "sextet c =
     (if is_upper c then Some (of_char c - 65)
      else if CHR ''a'' \<le> c \<and> c \<le> CHR ''z'' then Some (of_char c - 71)
      else if is_digit c then Some (of_char c + 4)
      else if c = CHR ''+'' \<or> c = CHR ''-'' then Some 62
      else if c = CHR ''/'' \<or> c = CHR ''_'' then Some 63
      else None)"

fun bytes_of_sextets :: "nat list \<Rightarrow> byte list" where
  "bytes_of_sextets (a # b # c # d # rest) =
     [of_nat (a * 4 + b div 16), of_nat ((b mod 16) * 16 + c div 4), of_nat ((c mod 4) * 64 + d)]
     @ bytes_of_sextets rest"
| "bytes_of_sextets [a, b, c] = [of_nat (a * 4 + b div 16), of_nat ((b mod 16) * 16 + c div 4)]"
| "bytes_of_sextets [a, b] = [of_nat (a * 4 + b div 16)]"
| "bytes_of_sextets _ = []"

definition base64_decode :: "string \<Rightarrow> byte list" where
  "base64_decode s = bytes_of_sextets (List.map_filter sextet (takeWhile (\<lambda>c. c \<noteq> CHR ''='') s))"

definition sample_date_ms :: "string \<Rightarrow> int option" where
  "sample_date_ms s =
     (if s = ''2024-01-01T23:00Z'' then Some 1704150000000
      else if s = ''2024-01-02T00:30:00+02:00'' then Some 1704148200000
      else if s = ''2024-01-02T01:00Z'' then Some 1704157200000
      else if s = ''2024-01-03T00:00Z'' then Some 1704240000000
      else None)"

definition sample_local_date :: "string \<Rightarrow> (int \<Rightarrow> string) option" where
  "sample_local_date tz =
     (if tz = ''Etc/GMT-2'' then
        Some (\<lambda>t. if (t + 7200000) div 86400000 = 19723 then ''2024-01-01''
                  else if (t + 7200000) div 86400000 = 19724 then ''2024-01-02''
                  else ''2024-01-03'')
      else None)"

definition sample_env :: env where
  "sample_env =
     \<lparr>now_iso = ''2024-01-03T00:00:00.000Z'',
      now_ms = 1704240000000,
      from_base64 = base64_decode,
      utf8_string = map (\<lambda>b. char_of (unat b)),
      json_parse = (\<lambda>s. None),
      json_stringify = (\<lambda>h v. Some ''{}''),
      num_string = (\<lambda>n. ''0''),
      array_string = (\<lambda>h v. Some []),
      date_ms = sample_date_ms,
      local_date = sample_local_date,
      bind_text = (\<lambda>v. case v of VNum n \<Rightarrow> Some ''0'' | _ \<Rightarrow> None)\<rparr>"

text \<open>Sixteen lower-case hexadecimal digits: the canonical form of a device EUI.\<close>

definition hex16_lower :: "string \<Rightarrow> bool" where
  "hex16_lower x = (length x = 16 \<and> list_all is_lower_hex x)"

text \<open>
  Two documents for the examples: \<^verbatim>\<open>{rxInfo: [{rssi: -80, snr: 5}, {rssi: -60, snr: 9}]}\<close>,
  and \<^verbatim>\<open>{rxInfo: [{rssi: -60}], snr: 7}\<close>. The document is at reference 0.
\<close>

definition two_gateways :: heap where
  "two_gateways =
     [Obj [(''rxInfo'', VRef 1)],
      Arr [VRef 2, VRef 3],
      Obj [(''rssi'', VNum (Fin (- 80))), (''snr'', VNum (Fin 5))],
      Obj [(''rssi'', VNum (Fin (- 60))), (''snr'', VNum (Fin 9))]]"

definition gateway_without_snr :: heap where
  "gateway_without_snr =
     [Obj [(''rxInfo'', VRef 1), (''snr'', VNum (Fin 7))],
      Arr [VRef 2],
      Obj [(''rssi'', VNum (Fin (- 60)))]]"

text \<open>
  What the normalizer returns for a document that has none of the fields it looks for,
  at the time of the example runtime's clock.
\<close>

definition bare_uplink :: "val \<Rightarrow> parsed" where
  "bare_uplink up =
     \<lparr>provider = ''generic'',
      devEui = None,
      devEuiB64 = None,
      deviceName = None,
      applicationId = None,
      applicationName = None,
      p_at = ''2024-01-03T00:00:00.000Z'',
      deduplicationId = None,
      p_rssi = None,
      p_snr = None,
      p_battery_mv = None,
      p_meterValue = None,
      p_meterValueRaw = None,
      decodedObj = None,
      payloadObj = up\<rparr>"

text \<open>
  A document without a device identity, \<^verbatim>\<open>{time: "2024-01-01T23:00Z", meterValue: "42.3"}\<close>,
  the request that delivers the document at reference 0, and a server that has stored
  nothing yet. A second document without a device identity, whose timestamp is a record
  with an entry named \<^verbatim>\<open>toString\<close>: \<^verbatim>\<open>{time: {toString: 1}}\<close>.
\<close>

definition anonymous_doc :: heap where
  "anonymous_doc = [Obj [(''time'', VStr ''2024-01-01T23:00Z''), (''meterValue'', VStr ''42.3'')]]"

definition anonymous_request :: request where
  "anonymous_request = \<lparr>req_api_key = None, req_authorization = None, req_body = Some (VRef 0)\<rparr>"

definition idle_server :: server where
  "idle_server = \<lparr>srv_db = empty_db, lastEvents = [], sse_sent = []\<rparr>"

definition time_record_doc :: heap where
  "time_record_doc = [Obj [(''time'', VRef 1)], Obj [(''toString'', VNum (Fin 1))]]"


text \<open>
  Two deliveries of one uplink without a deduplication id, the second with another
  signal, and the readings that go with them; and a reading whose meter value is an
  infinity.
\<close>

definition first_delivery :: StoreUplinkInput where
  "first_delivery =
     \<lparr>ui_dev_eui = ''70b3d57ed0001234'',
      ui_at = ''2024-01-01T23:00Z'',
      ui_provider = Some ''ttn'',
      ui_device_name = Some ''meter-1'',
      ui_application_id = None,
      ui_application_name = None,
      ui_deduplication_id = None,
      ui_meter_value = Some (Fin 100),
      ui_meter_value_raw = Some (RStr ''100''),
      ui_battery_mv = Some (Fin 3599.6),
      ui_rssi = Some (Fin (- 80)),
      ui_snr = Some (Fin 5),
      ui_decoded_json = None,
      ui_payload_json = None\<rparr>"

definition second_delivery :: StoreUplinkInput where
  "second_delivery = first_delivery\<lparr>ui_rssi := Some (Fin (- 60)), ui_snr := Some NaN\<rparr>"

definition first_reading :: StoreReadingInput where
  "first_reading =
     \<lparr>ri_dev_eui = ''70b3d57ed0001234'',
      ri_at = ''2024-01-01T23:00Z'',
      ri_meter_value = Fin 100,
      ri_meter_value_raw = Some (RStr ''100''),
      ri_device_name = Some ''meter-1'',
      ri_application_id = None,
      ri_application_name = None,
      ri_deduplication_id = None,
      ri_battery_mv = Some (Fin 3599.6),
      ri_rssi = Some (Fin (- 80)),
      ri_snr = Some (Fin 5)\<rparr>"

definition second_reading :: StoreReadingInput where
  "second_reading = first_reading\<lparr>ri_rssi := Some (Fin (- 60)), ri_snr := Some NaN\<rparr>"

definition infinite_reading :: StoreReadingInput where
  "infinite_reading = first_reading\<lparr>ri_meter_value := PosInf\<rparr>"

text \<open>
  A table of three uplinks of one device, in the order they were stored, which is not the
  order of their times.
\<close>

definition uplink_at :: "string \<Rightarrow> nat \<Rightarrow> UplinkRow" where
  "uplink_at t i =
     \<lparr>ul_dev_eui = ''70b3d57ed0001234'',
      ul_at = t,
      ul_provider = Some ''ttn'',
      ul_device_name = Some ''meter-1'',
      ul_application_id = None,
      ul_application_name = None,
      ul_deduplication_id = Some (''70b3d57ed0001234:'' @ t),
      ul_meter_value = Some (Fin 100),
      ul_meter_value_raw = Some ''100'',
      ul_battery_mv = Some (Fin 3600),
      ul_rssi = Some (Fin (- 80)),
      ul_snr = Some (Fin 5),
      ul_decoded_json = None,
      ul_payload_json = None,
      ul_id = i\<rparr>"





text \<open>
  A self-referential document: an object that holds itself and an array, the array
  holding the object and itself. And a document with a meter value one edge below its
  root, \<^verbatim>\<open>{meter: 7}\<close>.
\<close>

definition shallow_doc :: heap where
  "shallow_doc = [Obj [(''meter'', VNum (Fin 7))]]"

definition cyclic_doc :: heap where
  "cyclic_doc = [Obj [(''self'', VRef 0), (''inner'', VRef 1)], Arr [VRef 0, VRef 1]]"

section \<open>Notions the claims are stated with\<close>

text \<open>
  Record \<open>i\<close> of a list of reception records carries the RSSI \<open>q\<close>, no record of the
  list carries a greater one, and every record before it carries a smaller one.
\<close>

definition best_at :: "heap \<Rightarrow> val list \<Rightarrow> nat \<Rightarrow> rat \<Rightarrow> bool" where
  "best_at h xs i q =
     (i < length xs \<and> item_rssi h (xs ! i) = Some (Fin q)
      \<and> (\<forall>j < length xs. \<forall>q'. item_rssi h (xs ! j) = Some (Fin q') \<longrightarrow> q' \<le> q)
      \<and> (\<forall>j < i. \<forall>q'. item_rssi h (xs ! j) = Some (Fin q') \<longrightarrow> q' < q))"











text \<open>
  Every entry of the stack lies as many edges below the root as its depth says, at most
  one more than \<open>maxDepth\<close>; every value seen lies at most \<open>maxDepth\<close> edges below.
\<close>

definition fk_inv :: "heap \<Rightarrow> val \<Rightarrow> nat \<Rightarrow> (val \<times> nat) list \<Rightarrow> val list \<Rightarrow> bool" where
  "fk_inv h rt m st seen =
     (list_all (\<lambda>p. fst p \<in> set (level h rt (snd p)) \<and> snd p \<le> m + 1) st
      \<and> list_all (\<lambda>v. list_ex (\<lambda>d. v \<in> set (level h rt d)) [0..<Suc m]) seen)"

section \<open>Properties of the arithmetic\<close>









text \<open>The exponent of a value between two powers of two.\<close>

lemma pow2_powi: "pow2 k = 2 powi k"
  by (simp add: pow2_def power_int_def inverse_eq_divide power_one_over)

lemma pow2_mono: "j \<le> k \<Longrightarrow> pow2 j \<le> pow2 k"
  unfolding pow2_powi by (rule power_int_increasing) simp_all

lemma sorted_exponents: "sorted exponents"
  unfolding exponents_def by (rule sorted_upto)

lemma sorted_le_last: "sorted xs \<Longrightarrow> x \<in> set xs \<Longrightarrow> x \<le> last xs"
  for xs :: "int list"
  by (induction xs) auto

lemma binade_eq:
  assumes lo: "pow2 k \<le> \<bar>q\<bar>" and hi: "\<bar>q\<bar> < pow2 (k + 1)"
    and k: "- 1022 \<le> k" "k \<le> 1023"
  shows "binade q = k"
proof -
  let ?ks = "filter (\<lambda>j. pow2 j \<le> \<bar>q\<bar>) exponents"
  have "k \<in> set exponents" unfolding exponents_def set_upto using k by simp
  then have mem: "k \<in> set ?ks" using lo by simp
  then have ne: "?ks \<noteq> []" by (metis empty_iff list.set(1))
  have b: "binade q = last ?ks" using ne by (simp add: binade_def)
  have "sorted (map (\<lambda>j. j) exponents)" using sorted_exponents by simp
  then have "sorted (map (\<lambda>j. j) ?ks)" by (rule sorted_filter)
  then have srt: "sorted ?ks" by simp
  have "last ?ks \<in> set ?ks" using ne by (rule last_in_set)
  then have "pow2 (last ?ks) \<le> \<bar>q\<bar>" by simp
  then have "pow2 (last ?ks) < pow2 (k + 1)" using hi by simp
  then have "last ?ks < k + 1" using pow2_mono [of "k + 1" "last ?ks"] by (cases "k + 1 \<le> last ?ks") auto
  moreover have "k \<le> last ?ks"
    using srt mem by (rule sorted_le_last)
  ultimately show ?thesis using b by simp
qed

text \<open>\<^verbatim>\<open>5 - 1.0000000000000002\<close> is 4: the tie goes to the even significand.\<close>

lemma to_double_tie: "to_double (5 - (1 + 1 / 2 ^ 52)) = Fin 4"
proof -
  let ?x = "5 - (1 + 1 / 2 ^ 52) :: rat"
  have "binade ?x = 1"
    by (rule binade_eq) (simp_all add: pow2_def)
  moreover have "?x / pow2 (- 51) = 2 ^ 53 - 1 / 2"
    by (simp add: pow2_def field_simps)
  moreover have "round_half_even (2 ^ 53 - 1 / 2) = 2 ^ 53"
  proof -
    have "\<lfloor>2 ^ 53 - 1 / 2 :: rat\<rfloor> = 2 ^ 53 - 1" by (simp add: floor_eq_iff)
    then show ?thesis by (simp add: round_half_even_def Let_def)
  qed
  ultimately show ?thesis
    by (simp add: to_double_def Let_def pow2_def js_norm_def double_limit_def)
qed


section \<open>Properties of the meter numeric-parsing chain\<close>

lemmas number_eval =
  js_Number_def parse_signed_def parse_radix_def parse_decimal_def parse_exponent_def
  scale10_def digits_val_def digit_val_def is_digit_def trim_def is_space_def js_norm_def
  double_limit_def

lemmas meter_eval =
  parseMeterNumber_def parse_compact_def parse_first_num_def compact_match_def match_num_at_def

lemma isFinite_iff: "isFinite n \<longleftrightarrow> (\<exists>q. n = Fin q)"
  by (cases n) simp_all

lemma parse_compact_finite:
  "parse_compact s = Some r \<Longrightarrow> \<exists>q. meterValue r = Some (Fin q) \<and> meterValueRaw r = Some (RStr s)"
  by (auto simp: parse_compact_def Let_def isFinite_iff split: option.splits if_splits)

lemma parse_first_num_finite:
  "parse_first_num s = Some r \<Longrightarrow> \<exists>q. meterValue r = Some (Fin q) \<and> meterValueRaw r = Some (RStr s)"
  by (auto simp: parse_first_num_def Let_def isFinite_iff split: option.splits if_splits)

lemma parseMeterNumber_string:
  assumes "trim str \<noteq> []"
  shows "meterValueRaw (parseMeterNumber (Some (VStr str))) = Some (RStr (trim str))
    \<and> (meterValue (parseMeterNumber (Some (VStr str))) = None
       \<or> (\<exists>q. meterValue (parseMeterNumber (Some (VStr str))) = Some (Fin q)))"
  using assms
  by (auto simp: parseMeterNumber_def Let_def isFinite_iff
      dest!: parse_compact_finite parse_first_num_finite split: option.splits)

text \<open>
  C3, as amended. \<^verbatim>\<open>parseMeterNumber\<close> maps \<^verbatim>\<open>"12,5"\<close> to 12.5,
  \<^verbatim>\<open>"abc 42.3 kWh"\<close> to 42.3, and \<^verbatim>\<open>"garbage"\<close> to an absent value with the
  raw text \<^verbatim>\<open>"garbage"\<close> kept. (The two digit strings of the claim are left
  out.)
\<close>

theorem parseMeterNumber_examples:
  "parseMeterNumber (Some (VStr ''12,5''))
     = \<lparr>meterValue = Some (Fin 12.5), meterValueRaw = Some (RStr ''12,5'')\<rparr>
   \<and> parseMeterNumber (Some (VStr ''abc 42.3 kWh''))
     = \<lparr>meterValue = Some (Fin 42.3), meterValueRaw = Some (RStr ''abc 42.3 kWh'')\<rparr>
   \<and> parseMeterNumber (Some (VStr ''garbage''))
     = \<lparr>meterValue = None, meterValueRaw = Some (RStr ''garbage'')\<rparr>"
  by (simp add: meter_eval number_eval)

text \<open>
  C3 as stated fails: a string of digits is a number to \<^verbatim>\<open>Number\<close>, so the direct
  parse returns before the regrouping pattern is tried. \<^verbatim>\<open>"1234567"\<close> gives
  1234567, not 1234.567, and \<^verbatim>\<open>"123456"\<close> gives 123456, not 12345.6.
\<close>

theorem parseMeterNumber_digits_direct:
  "parseMeterNumber (Some (VStr ''1234567''))
     = \<lparr>meterValue = Some (Fin 1234567), meterValueRaw = Some (RStr ''1234567'')\<rparr>
   \<and> meterValue (parseMeterNumber (Some (VStr ''1234567''))) \<noteq> Some (Fin 1234.567)
   \<and> parseMeterNumber (Some (VStr ''123456''))
     = \<lparr>meterValue = Some (Fin 123456), meterValueRaw = Some (RStr ''123456'')\<rparr>
   \<and> meterValue (parseMeterNumber (Some (VStr ''123456''))) \<noteq> Some (Fin 12345.6)"
  by (simp add: meter_eval number_eval)

text \<open>
  C4, as amended. \<^verbatim>\<open>parseMeterNumber\<close> has no failing branch and returns a result
  for every input, \<^verbatim>\<open>undefined\<close> included. The meter value is absent or a finite
  number, never NaN or an infinity. The raw representation kept is: for a string, its
  trimmed text, whether or not a number was found in it, and null when the string is
  blank; for a number, the number when it is finite and null otherwise; null for every
  other input.
\<close>

theorem parseMeterNumber_total:
  "(meterValue (parseMeterNumber raw) = None
      \<or> (\<exists>q. meterValue (parseMeterNumber raw) = Some (Fin q)))
   \<and> (\<forall>str. raw = Some (VStr str) \<longrightarrow>
        meterValueRaw (parseMeterNumber raw) = (if trim str = [] then None else Some (RStr (trim str))))
   \<and> (\<forall>n. raw = Some (VNum n) \<longrightarrow>
        meterValueRaw (parseMeterNumber raw) = (if isFinite n then Some (RNum n) else None))
   \<and> ((\<forall>str. raw \<noteq> Some (VStr str)) \<and> (\<forall>n. raw \<noteq> Some (VNum n)) \<longrightarrow>
        meterValueRaw (parseMeterNumber raw) = None)"
proof (cases raw)
  case None
  then show ?thesis by (simp add: parseMeterNumber_def)
next
  case (Some v)
  show ?thesis
  proof (cases v)
    case (VStr str)
    show ?thesis
    proof (cases "trim str = []")
      case True
      with Some VStr show ?thesis by (simp add: parseMeterNumber_def)
    next
      case False
      from parseMeterNumber_string [OF False] Some VStr False show ?thesis by simp
    qed
  next
    case (VNum n)
    with Some show ?thesis by (cases n) (simp_all add: parseMeterNumber_def)
  qed (use Some in \<open>simp_all add: parseMeterNumber_def\<close>)
qed

theorem parseMeterNumber_total_witness:
  "meterValue (parseMeterNumber (Some (VStr '' garbage ''))) = None
   \<and> meterValueRaw (parseMeterNumber (Some (VStr '' garbage ''))) = Some (RStr ''garbage'')"
proof -
  have t: "trim '' garbage '' = ''garbage''" by (simp add: trim_def is_space_def)
  have "meterValueRaw (parseMeterNumber (Some (VStr '' garbage ''))) = Some (RStr ''garbage'')"
    using parseMeterNumber_total [of "Some (VStr '' garbage '')"] t by simp
  moreover have "meterValue (parseMeterNumber (Some (VStr '' garbage ''))) = None"
    by (simp add: meter_eval number_eval)
  ultimately show ?thesis by simp
qed

text \<open>
  C4 as stated fails: the representation handed in is not always retained. A boolean
  and an infinite number leave \<^verbatim>\<open>meterValueRaw\<close> null, and a string is kept
  trimmed, not as it came.
\<close>

theorem parseMeterNumber_raw_dropped:
  "meterValueRaw (parseMeterNumber (Some (VBool True))) = None
   \<and> meterValueRaw (parseMeterNumber (Some (VNum PosInf))) = None
   \<and> meterValueRaw (parseMeterNumber (Some (VStr '' garbage ''))) \<noteq> Some (RStr '' garbage '')"
  by (simp add: meter_eval number_eval)

section \<open>Properties of the device identity\<close>

lemma lower_char_hex: "is_hex c \<Longrightarrow> is_lower_hex (lower_char c)"
  by (auto simp: is_hex_def is_lower_hex_def lower_char_def is_upper_def is_digit_def
      less_eq_char_def)

lemma hex_digit_lower:
  assumes "n < 16"
  shows "is_lower_hex (hex_digit n)"
proof -
  have all: "list_all is_lower_hex ''0123456789abcdef''"
    by (simp add: is_lower_hex_def is_digit_def less_eq_char_def)
  have "n < length ''0123456789abcdef''" using assms by simp
  with all show ?thesis
    unfolding hex_digit_def list_all_length by blast
qed

lemma hex_of_byte_lower: "list_all is_lower_hex (hex_of_byte b)"
proof -
  have "unat b < 256" using unsigned_less [of b] by simp
  then have "unat b div 16 < 16" by simp
  then show ?thesis by (simp add: hex_of_byte_def hex_digit_lower)
qed

lemma hex_of_bytes_lower: "list_all is_lower_hex (hex_of_bytes bs)"
  by (induction bs) (simp_all add: hex_of_bytes_def hex_of_byte_lower)

lemma length_hex_of_bytes: "length (hex_of_bytes bs) = 2 * length bs"
  by (induction bs) (simp_all add: hex_of_bytes_def hex_of_byte_def)

lemma toLowerCase_hex: "list_all is_hex s \<Longrightarrow> list_all is_lower_hex (toLowerCase s)"
  by (induction s) (simp_all add: toLowerCase_def lower_char_hex)

text \<open>
  C7, as amended. \<^verbatim>\<open>normalizeDevEui\<close> first trims the candidate string, and a
  candidate that is blank resolves no identity at all. Otherwise, on the trimmed
  string: sixteen hexadecimal characters are lower-cased and used directly; else, if
  the string base64-decodes to exactly 8 bytes, the hex of those bytes is the identity
  and the trimmed string is retained as the base64 form; else the trimmed string
  lower-cased is used. In each of the first two of these branches the identity is
  exactly 16 lower-case hexadecimal characters.
\<close>

theorem normalizeDevEui_branches:
  "(trim t = [] \<longrightarrow>
      normalizeDevEui e (Some (VStr t)) = \<lparr>hex = None, base64 = None\<rparr>)
   \<and> (trim t \<noteq> [] \<and> HEX16 (trim t) \<longrightarrow>
      normalizeDevEui e (Some (VStr t)) = \<lparr>hex = Some (toLowerCase (trim t)), base64 = None\<rparr>
      \<and> hex16_lower (toLowerCase (trim t)))
   \<and> (trim t \<noteq> [] \<and> \<not> HEX16 (trim t) \<and> length (from_base64 e (trim t)) = 8 \<longrightarrow>
      normalizeDevEui e (Some (VStr t))
        = \<lparr>hex = Some (hex_of_bytes (from_base64 e (trim t))), base64 = Some (trim t)\<rparr>
      \<and> hex16_lower (hex_of_bytes (from_base64 e (trim t))))
   \<and> (trim t \<noteq> [] \<and> \<not> HEX16 (trim t) \<and> length (from_base64 e (trim t)) \<noteq> 8 \<longrightarrow>
      normalizeDevEui e (Some (VStr t)) = \<lparr>hex = Some (toLowerCase (trim t)), base64 = None\<rparr>)"
proof -
  have a: "HEX16 (trim t) \<Longrightarrow> hex16_lower (toLowerCase (trim t))"
    by (simp add: HEX16_def hex16_lower_def toLowerCase_hex) (simp add: toLowerCase_def)
  have b: "length (from_base64 e (trim t)) = 8
    \<Longrightarrow> hex16_lower (hex_of_bytes (from_base64 e (trim t)))"
    by (simp add: hex16_lower_def hex_of_bytes_lower length_hex_of_bytes)
  show ?thesis
    using a b by (simp add: normalizeDevEui_def Let_def)
qed

theorem normalizeDevEui_branches_witness:
  "normalizeDevEui sample_env (Some (VStr ''   ''))
     = \<lparr>hex = None, base64 = None\<rparr>
   \<and> normalizeDevEui sample_env (Some (VStr ''70B3D57ED0001234''))
     = \<lparr>hex = Some ''70b3d57ed0001234'', base64 = None\<rparr>
   \<and> hex16_lower ''70b3d57ed0001234''
   \<and> normalizeDevEui sample_env (Some (VStr ''AAECAwQFBgc=''))
     = \<lparr>hex = Some ''0001020304050607'', base64 = Some ''AAECAwQFBgc=''\<rparr>
   \<and> hex16_lower ''0001020304050607''
   \<and> normalizeDevEui sample_env (Some (VStr ''My-Meter''))
     = \<lparr>hex = Some ''my-meter'', base64 = None\<rparr>"
proof -
  have t1: "trim ''   '' = []"
    and t2: "trim ''70B3D57ED0001234'' = ''70B3D57ED0001234''"
    and t3: "trim ''AAECAwQFBgc='' = ''AAECAwQFBgc=''"
    and t4: "trim ''My-Meter'' = ''My-Meter''"
    by (simp_all add: trim_def is_space_def)
  have h2: "HEX16 ''70B3D57ED0001234''"
    and h3: "\<not> HEX16 ''AAECAwQFBgc=''"
    and h4: "\<not> HEX16 ''My-Meter''"
    by (simp_all add: HEX16_def is_hex_def is_digit_def less_eq_char_def)
  have l2: "toLowerCase ''70B3D57ED0001234'' = ''70b3d57ed0001234''"
    and l4: "toLowerCase ''My-Meter'' = ''my-meter''"
    by (simp_all add: toLowerCase_def lower_char_def is_upper_def less_eq_char_def
        char_of_eq_iff)
  have d3: "from_base64 sample_env ''AAECAwQFBgc='' = [0, 1, 2, 3, 4, 5, 6, 7]"
    by (simp add: sample_env_def base64_decode_def List.map_filter_def sextet_def is_upper_def
        is_digit_def less_eq_char_def)
  have d4: "length (from_base64 sample_env ''My-Meter'') = 6"
    by (simp add: sample_env_def base64_decode_def List.map_filter_def sextet_def is_upper_def
        is_digit_def less_eq_char_def)
  have x3: "hex_of_bytes [0, 1, 2, 3, 4, 5, 6, 7] = ''0001020304050607''"
    by (simp add: hex_of_bytes_def hex_of_byte_def hex_digit_def)
  show ?thesis
    using normalizeDevEui_branches [of "''   ''" sample_env]
      normalizeDevEui_branches [of "''70B3D57ED0001234''" sample_env]
      normalizeDevEui_branches [of "''AAECAwQFBgc=''" sample_env]
      normalizeDevEui_branches [of "''My-Meter''" sample_env]
    by (simp add: t1 t2 t3 t4 h2 h3 h4 l2 l4 d3 d4 x3)
qed

text \<open>
  C7 as stated fails on a candidate with surrounding white space: it is not the raw
  string lower-cased that is used, but the trimmed one; and a blank candidate gives no
  identity rather than its own lower-casing.
\<close>

theorem normalizeDevEui_trims:
  "hex (normalizeDevEui sample_env (Some (VStr '' AB ''))) = Some ''ab''
   \<and> toLowerCase '' AB '' = '' ab ''
   \<and> hex (normalizeDevEui sample_env (Some (VStr '' ''))) = None
   \<and> toLowerCase '' '' = '' ''"
  by (simp add: normalizeDevEui_def trim_def is_space_def HEX16_def toLowerCase_def
      lower_char_def is_upper_def less_eq_char_def sample_env_def base64_decode_def
      List.map_filter_def sextet_def is_digit_def char_of_eq_iff)

section \<open>Properties of the signal selection\<close>

lemma numOrNull_isFinite: "numOrNull v = Some n \<Longrightarrow> isFinite n"
  by (auto simp: numOrNull_def Let_def split: option.splits val.splits if_splits)

lemma item_rssi_finite: "item_rssi h x = Some n \<Longrightarrow> \<exists>q. n = Fin q"
  using numOrNull_isFinite [of _ n] by (simp add: item_rssi_def isFinite_iff)

lemma bestSignal_loop_append:
  "bestSignal_loop h (xs @ ys) b s =
     bestSignal_loop h ys (sig_rssi (bestSignal_loop h xs b s)) (sig_snr (bestSignal_loop h xs b s))"
  by (induction xs arbitrary: b s) (simp_all add: Let_def split: option.splits)

lemma best_at_snoc_keep:
  assumes "best_at h xs i q"
    and "\<And>q'. item_rssi h x = Some (Fin q') \<Longrightarrow> q' \<le> q"
  shows "best_at h (xs @ [x]) i q"
  using assms
  by (auto simp: best_at_def nth_append less_Suc_eq)

lemma best_at_snoc_new:
  assumes "item_rssi h x = Some (Fin q)"
    and "\<And>j q'. j < length xs \<Longrightarrow> item_rssi h (xs ! j) = Some (Fin q') \<Longrightarrow> q' < q"
  shows "best_at h (xs @ [x]) (length xs) q"
  using assms
  by (auto simp: best_at_def nth_append less_Suc_eq dest: less_imp_le)

text \<open>
  What the loop has after a list of records: nothing when no record has a numeric RSSI,
  else the RSSI and the SNR of the first record with the greatest RSSI. The proof goes
  through the list from its front, one record at a time.
\<close>

lemma bestSignal_spec:
  "(sig_rssi (bestSignal h xs) = None \<and> sig_snr (bestSignal h xs) = None
      \<and> (\<forall>j < length xs. item_rssi h (xs ! j) = None))
   \<or> (\<exists>i q. best_at h xs i q \<and> sig_rssi (bestSignal h xs) = Some (Fin q)
         \<and> sig_snr (bestSignal h xs) = item_snr h (xs ! i))"
proof (induction xs rule: rev_induct)
  case Nil
  then show ?case by (simp add: bestSignal_def)
next
  case (snoc x xs)
  have step: "bestSignal h (xs @ [x]) =
      bestSignal_loop h [x] (sig_rssi (bestSignal h xs)) (sig_snr (bestSignal h xs))"
    by (simp add: bestSignal_def bestSignal_loop_append)
  show ?case
  proof (cases "item_rssi h x")
    case None
    then have same: "bestSignal h (xs @ [x]) = bestSignal h xs"
      by (simp add: step)
    from snoc.IH show ?thesis
    proof
      assume "sig_rssi (bestSignal h xs) = None \<and> sig_snr (bestSignal h xs) = None
        \<and> (\<forall>j < length xs. item_rssi h (xs ! j) = None)"
      then show ?thesis using None by (auto simp: same nth_append less_Suc_eq)
    next
      assume "\<exists>i q. best_at h xs i q \<and> sig_rssi (bestSignal h xs) = Some (Fin q)
         \<and> sig_snr (bestSignal h xs) = item_snr h (xs ! i)"
      then obtain i q where b: "best_at h xs i q"
        and r: "sig_rssi (bestSignal h xs) = Some (Fin q)"
        and s: "sig_snr (bestSignal h xs) = item_snr h (xs ! i)" by blast
      have "best_at h (xs @ [x]) i q" using b None by (intro best_at_snoc_keep) simp_all
      moreover have "(xs @ [x]) ! i = xs ! i" using b by (simp add: best_at_def nth_append)
      ultimately show ?thesis using r s same by auto
    qed
  next
    case (Some n)
    then obtain qx where n: "n = Fin qx" using item_rssi_finite by blast
    from snoc.IH show ?thesis
    proof
      assume a: "sig_rssi (bestSignal h xs) = None \<and> sig_snr (bestSignal h xs) = None
        \<and> (\<forall>j < length xs. item_rssi h (xs ! j) = None)"
      then have res: "bestSignal h (xs @ [x]) = \<lparr>sig_rssi = Some (Fin qx), sig_snr = item_snr h x\<rparr>"
        using Some n by (simp add: step)
      have "best_at h (xs @ [x]) (length xs) qx"
        using Some n a by (intro best_at_snoc_new) simp_all
      then show ?thesis using res by auto
    next
      assume "\<exists>i q. best_at h xs i q \<and> sig_rssi (bestSignal h xs) = Some (Fin q)
         \<and> sig_snr (bestSignal h xs) = item_snr h (xs ! i)"
      then obtain i q where b: "best_at h xs i q"
        and r: "sig_rssi (bestSignal h xs) = Some (Fin q)"
        and s: "sig_snr (bestSignal h xs) = item_snr h (xs ! i)" by blast
      show ?thesis
      proof (cases "q < qx")
        case True
        then have res: "bestSignal h (xs @ [x]) = \<lparr>sig_rssi = Some (Fin qx), sig_snr = item_snr h x\<rparr>"
          using Some n r by (simp add: step js_gt_def)
        have "best_at h (xs @ [x]) (length xs) qx"
        proof (rule best_at_snoc_new)
          show "item_rssi h x = Some (Fin qx)" using Some n by simp
        next
          fix j q' assume "j < length xs" "item_rssi h (xs ! j) = Some (Fin q')"
          with b have "q' \<le> q" by (auto simp: best_at_def)
          with True show "q' < qx" by simp
        qed
        then show ?thesis using res by auto
      next
        case False
        then have same: "bestSignal h (xs @ [x]) = bestSignal h xs"
          using Some n r by (simp add: step js_gt_def)
        have "best_at h (xs @ [x]) i q"
          using b Some n False by (intro best_at_snoc_keep) simp_all
        moreover have "(xs @ [x]) ! i = xs ! i" using b by (simp add: best_at_def nth_append)
        ultimately show ?thesis using r s same by auto
      qed
    qed
  qed
qed

text \<open>When the normalizer returns, both of its conversions to a string have.\<close>

lemma parseLoRaPayload_Inr:
  assumes "parseLoRaPayload e h up = Inr p"
  shows "\<exists>t dd. resolve_at e h up = Some t \<and> resolve_deduplicationId e h up = Some dd"
proof (cases "resolve_at e h up")
  case None
  with assms show ?thesis by (simp add: parseLoRaPayload_def Let_def)
next
  case t: (Some t)
  show ?thesis
  proof (cases "resolve_deduplicationId e h up")
    case None
    with assms t show ?thesis by (simp add: parseLoRaPayload_def Let_def)
  next
    case (Some dd)
    with t show ?thesis by simp
  qed
qed

lemma parsed_signal:
  assumes "parseLoRaPayload e h up = Inr p"
  shows "p_rssi p = resolve_rssi h up" and "p_snr p = resolve_snr h up"
proof -
  from parseLoRaPayload_Inr [OF assms] obtain t dd
    where "resolve_at e h up = Some t" and "resolve_deduplicationId e h up = Some dd" by blast
  with assms show "p_rssi p = resolve_rssi h up" and "p_snr p = resolve_snr h up"
    by (auto simp: parseLoRaPayload_def Let_def)
qed

lemmas signal_eval =
  resolve_rssi_def resolve_snr_def top_rssi_def top_snr_def bestSignal_def rxCandidates_def
  array_or_empty_def get_prop_def entries_def items_def deref_def item_rssi_def item_snr_def
  numOrNull_def

text \<open>
  The normalized uplink of a document that has none of the identity, name and
  decoded-payload fields, and those of two example documents.
\<close>

lemma firstDefined_absent:
  assumes "entries h up = Some es"
    and "list_all (\<lambda>p. case p of Key k # rest \<Rightarrow> map_of es k = None | _ \<Rightarrow> False) ps"
  shows "firstDefined h up ps = None"
  using assms by (induction ps) (auto split: list.splits seg.splits)

lemma parseLoRaPayload_bare:
  assumes ent: "entries h up = Some es"
    and keys: "list_all (\<lambda>k. map_of es k = None)
      [''end_device_ids'', ''deviceInfo'', ''device'', ''endDeviceIds'', ''devEui'', ''devEUI'',
       ''dev_eui'', ''deviceEui'', ''deviceName'', ''applicationId'', ''applicationName'',
       ''object'', ''decoded_payload'', ''uplink_message'', ''objectJSON'', ''objectJson'']"
    and t: "resolve_at e h up = Some t"
    and dd: "resolve_deduplicationId e h up = Some dd"
  shows "parseLoRaPayload e h up =
     Inr \<lparr>provider = ''generic'', devEui = None, devEuiB64 = None, deviceName = None,
          applicationId = None, applicationName = None, p_at = t, deduplicationId = dd,
          p_rssi = resolve_rssi h up, p_snr = resolve_snr h up,
          p_battery_mv = resolve_battery h up None,
          p_meterValue = meterValue (parseMeterNumber (resolve_meterRaw e h up None)),
          p_meterValueRaw = meterValueRaw (parseMeterNumber (resolve_meterRaw e h up None)),
          decodedObj = None, payloadObj = up\<rparr>"
  using keys
  by (simp add: parseLoRaPayload_def Let_def t dd firstDefined_absent [OF ent] ent devEui_paths_def
      get_prop_def truthy_def normalizeDevEui_def asRecord_def parseJsonObject_def)

lemmas doc_eval =
  resolve_at_def resolve_deduplicationId_def resolve_meterRaw_def resolve_battery_def
  decodeBase64Ascii_def js_String_def sample_env_def Let_def

lemma two_gateways_parsed:
  "parseLoRaPayload sample_env two_gateways (VRef 0)
     = Inr ((bare_uplink (VRef 0))\<lparr>p_rssi := Some (Fin (- 60)), p_snr := Some (Fin 9)\<rparr>)"
proof -
  have ent: "entries two_gateways (VRef 0) = Some [(''rxInfo'', VRef 1)]"
    by (simp add: entries_def deref_def two_gateways_def)
  have t: "resolve_at sample_env two_gateways (VRef 0) = Some ''2024-01-03T00:00:00.000Z''"
    and dd: "resolve_deduplicationId sample_env two_gateways (VRef 0) = Some None"
    and m: "resolve_meterRaw sample_env two_gateways (VRef 0) None = None"
    and b: "resolve_battery two_gateways (VRef 0) None = None"
    by (simp_all add: doc_eval numOrNull_def entries_def deref_def two_gateways_def)
  have r: "resolve_rssi two_gateways (VRef 0) = Some (Fin (- 60))"
    "resolve_snr two_gateways (VRef 0) = Some (Fin 9)"
    by (simp_all add: signal_eval two_gateways_def js_gt_def)
  show ?thesis
    by (subst parseLoRaPayload_bare [OF ent _ t dd])
      (simp_all add: m b r parseMeterNumber_def bare_uplink_def)
qed

lemma gateway_without_snr_parsed:
  "parseLoRaPayload sample_env gateway_without_snr (VRef 0)
     = Inr ((bare_uplink (VRef 0))\<lparr>p_rssi := Some (Fin (- 60)), p_snr := Some (Fin 7)\<rparr>)"
proof -
  have ent: "entries gateway_without_snr (VRef 0)
      = Some [(''rxInfo'', VRef 1), (''snr'', VNum (Fin 7))]"
    by (simp add: entries_def deref_def gateway_without_snr_def)
  have t: "resolve_at sample_env gateway_without_snr (VRef 0) = Some ''2024-01-03T00:00:00.000Z''"
    and dd: "resolve_deduplicationId sample_env gateway_without_snr (VRef 0) = Some None"
    and m: "resolve_meterRaw sample_env gateway_without_snr (VRef 0) None = None"
    and b: "resolve_battery gateway_without_snr (VRef 0) None = None"
    by (simp_all add: doc_eval numOrNull_def entries_def deref_def gateway_without_snr_def)
  have r: "resolve_rssi gateway_without_snr (VRef 0) = Some (Fin (- 60))"
    "resolve_snr gateway_without_snr (VRef 0) = Some (Fin 7)"
    by (simp_all add: signal_eval gateway_without_snr_def js_gt_def)
  show ?thesis
    by (subst parseLoRaPayload_bare [OF ent _ t dd])
      (simp_all add: m b r parseMeterNumber_def bare_uplink_def)
qed

text \<open>
  C6, as amended. With the gateway-reception records merged into one list, the rssi of
  the normalized uplink is the numerically greatest RSSI of the records that have one, a
  tie keeping the first such record, and its snr is the SNR paired with that record when
  the record has one. Each of the two falls back on its own to the top-level scalar
  fields whenever the records leave it null: both when no record has a numeric RSSI (in
  particular when there is no list), and the snr alone when the selected record has no
  SNR. For the two records \<^verbatim>\<open>{rssi: -80, snr: 5}\<close> and
  \<^verbatim>\<open>{rssi: -60, snr: 9}\<close> the result is \<^verbatim>\<open>{rssi: -60, snr: 9}\<close>.
\<close>

theorem signal_selection:
  assumes "parseLoRaPayload e h up = Inr p"
  shows "((\<forall>j < length (rxCandidates h up). item_rssi h (rxCandidates h up ! j) = None) \<longrightarrow>
      p_rssi p = top_rssi h up \<and> p_snr p = top_snr h up)
   \<and> ((\<exists>j < length (rxCandidates h up). item_rssi h (rxCandidates h up ! j) \<noteq> None) \<longrightarrow>
      (\<exists>i q. best_at h (rxCandidates h up) i q
         \<and> p_rssi p = Some (Fin q)
         \<and> p_snr p = (case item_snr h (rxCandidates h up ! i) of
                        Some s \<Rightarrow> Some s
                      | None \<Rightarrow> top_snr h up)))
   \<and> bestSignal two_gateways [VRef 2, VRef 3] = \<lparr>sig_rssi = Some (Fin (- 60)), sig_snr = Some (Fin 9)\<rparr>"
proof -
  let ?xs = "rxCandidates h up"
  note sig = parsed_signal [OF assms]
  have ex: "bestSignal two_gateways [VRef 2, VRef 3]
      = \<lparr>sig_rssi = Some (Fin (- 60)), sig_snr = Some (Fin 9)\<rparr>"
    by (simp add: signal_eval two_gateways_def js_gt_def number_eval)
  from bestSignal_spec [of h ?xs] show ?thesis
  proof
    assume a: "sig_rssi (bestSignal h ?xs) = None \<and> sig_snr (bestSignal h ?xs) = None
      \<and> (\<forall>j < length ?xs. item_rssi h (?xs ! j) = None)"
    then have none: "\<not> (\<exists>j < length ?xs. item_rssi h (?xs ! j) \<noteq> None)"
      by simp
    have "p_rssi p = top_rssi h up" and "p_snr p = top_snr h up"
      using a by (simp_all add: sig resolve_rssi_def resolve_snr_def)
    then show ?thesis using none ex by blast
  next
    assume "\<exists>i q. best_at h ?xs i q \<and> sig_rssi (bestSignal h ?xs) = Some (Fin q)
      \<and> sig_snr (bestSignal h ?xs) = item_snr h (?xs ! i)"
    then obtain i q where b: "best_at h ?xs i q"
      and r: "sig_rssi (bestSignal h ?xs) = Some (Fin q)"
      and s: "sig_snr (bestSignal h ?xs) = item_snr h (?xs ! i)" by blast
    from b have some: "\<not> (\<forall>j < length ?xs. item_rssi h (?xs ! j) = None)"
      by (auto simp: best_at_def)
    have "p_rssi p = Some (Fin q)"
      using r by (simp add: sig resolve_rssi_def)
    moreover have "p_snr p
        = (case item_snr h (?xs ! i) of Some s \<Rightarrow> Some s | None \<Rightarrow> top_snr h up)"
      using s by (simp add: sig resolve_snr_def)
    ultimately show ?thesis using b some ex by blast
  qed
qed

theorem signal_selection_witness:
  "parseLoRaPayload sample_env two_gateways (VRef 0)
     = Inr ((bare_uplink (VRef 0))\<lparr>p_rssi := Some (Fin (- 60)), p_snr := Some (Fin 9)\<rparr>)
   \<and> rxCandidates two_gateways (VRef 0) = [VRef 2, VRef 3]
   \<and> item_rssi two_gateways (VRef 2) = Some (Fin (- 80))
   \<and> item_rssi two_gateways (VRef 3) = Some (Fin (- 60))
   \<and> (\<exists>i. best_at two_gateways [VRef 2, VRef 3] i (- 60))"
proof -
  let ?p = "(bare_uplink (VRef 0))\<lparr>p_rssi := Some (Fin (- 60)), p_snr := Some (Fin 9)\<rparr>"
  note p = two_gateways_parsed
  have xs: "rxCandidates two_gateways (VRef 0) = [VRef 2, VRef 3]"
    by (simp add: signal_eval two_gateways_def)
  have r2: "item_rssi two_gateways (VRef 2) = Some (Fin (- 80))"
    and r3: "item_rssi two_gateways (VRef 3) = Some (Fin (- 60))"
    by (simp_all add: signal_eval two_gateways_def)
  have some: "\<exists>j < length (rxCandidates two_gateways (VRef 0)).
      item_rssi two_gateways (rxCandidates two_gateways (VRef 0) ! j) \<noteq> None"
    unfolding xs using r2 by (intro exI [of _ 0]) simp
  have rssi: "p_rssi ?p = Some (Fin (- 60))"
    by (simp add: bare_uplink_def)
  from signal_selection [OF p] some
  have "\<exists>i q. best_at two_gateways [VRef 2, VRef 3] i q \<and> p_rssi ?p = Some (Fin q)"
    unfolding xs by blast
  then have "\<exists>i. best_at two_gateways [VRef 2, VRef 3] i (- 60)"
    unfolding rssi by auto
  then show ?thesis using p xs r2 r3 by simp
qed

text \<open>
  C6 as stated fails where the selected record has no SNR: for
  \<^verbatim>\<open>{rxInfo: [{rssi: -60}], snr: 7}\<close> a per-record list exists and its one record
  is selected, yet the snr of the result is the top-level 7, not the (absent) SNR paired
  with that record.
\<close>

theorem signal_snr_falls_back:
  "rxCandidates gateway_without_snr (VRef 0) = [VRef 2]
   \<and> item_rssi gateway_without_snr (VRef 2) = Some (Fin (- 60))
   \<and> item_snr gateway_without_snr (VRef 2) = None
   \<and> parseLoRaPayload sample_env gateway_without_snr (VRef 0)
       = Inr ((bare_uplink (VRef 0))\<lparr>p_rssi := Some (Fin (- 60)), p_snr := Some (Fin 7)\<rparr>)"
proof -
  have "rxCandidates gateway_without_snr (VRef 0) = [VRef 2]
      \<and> item_rssi gateway_without_snr (VRef 2) = Some (Fin (- 60))
      \<and> item_snr gateway_without_snr (VRef 2) = None"
    by (simp add: signal_eval gateway_without_snr_def)
  then show ?thesis using gateway_without_snr_parsed by simp
qed

section \<open>Properties of the webhook\<close>

lemma pushEvent_db: "srv_db (pushEvent e b srv) = srv_db srv"
  and pushEvent_sse: "sse_sent (pushEvent e b srv) = sse_sent srv"
  by (simp_all add: pushEvent_def Let_def)

lemma pushEvent_last: "last (lastEvents (pushEvent e b srv)) = \<lparr>ev_ts = now_iso e, ev_body = b\<rparr>"
proof (cases "lastEvents srv")
  case Nil
  then show ?thesis by (simp add: pushEvent_def Let_def)
next
  case (Cons x xs)
  then show ?thesis by (simp add: pushEvent_def Let_def)
qed

lemma parsed_devEui:
  assumes "parseLoRaPayload e h up = Inr p"
  shows "devEui p = hex (normalizeDevEui e (firstDefined h up devEui_paths))"
proof -
  from parseLoRaPayload_Inr [OF assms] obtain t dd
    where "resolve_at e h up = Some t" and "resolve_deduplicationId e h up = Some dd" by blast
  with assms show ?thesis
    by (auto simp: parseLoRaPayload_def Let_def)
qed

lemma hex_normalizeDevEui_None:
  "hex (normalizeDevEui e v) = None \<longleftrightarrow> (case v of Some (VStr t) \<Rightarrow> trim t = [] | _ \<Rightarrow> True)"
  by (cases v; (cases "the v")?) (simp_all add: normalizeDevEui_def Let_def)

lemma hex_normalizeDevEui_nonempty:
  "hex (normalizeDevEui e v) \<noteq> Some []"
proof -
  have "length (from_base64 e s) = 8 \<Longrightarrow> hex_of_bytes (from_base64 e s) \<noteq> []" for s
    using length_hex_of_bytes [of "from_base64 e s"] by auto
  then show ?thesis
    by (cases v; (cases "the v")?) (simp_all add: normalizeDevEui_def Let_def toLowerCase_def)
qed

text \<open>
  No identity is resolved exactly when the first non-null value under the identity paths
  is missing, is not a string, or is a blank string.
\<close>

lemma no_identity_iff:
  assumes "parseLoRaPayload e h up = Inr p"
  shows "no_identity p \<longleftrightarrow>
     (case firstDefined h up devEui_paths of Some (VStr t) \<Rightarrow> trim t = [] | _ \<Rightarrow> True)"
proof -
  have "no_identity p \<longleftrightarrow> hex (normalizeDevEui e (firstDefined h up devEui_paths)) = None"
    using hex_normalizeDevEui_nonempty [of e "firstDefined h up devEui_paths"]
    by (auto simp: no_identity_def parsed_devEui [OF assms] split: option.splits)
  then show ?thesis by (simp add: hex_normalizeDevEui_None)
qed

text \<open>
  The normalizer returns exactly when \<^verbatim>\<open>String\<close> converts the timestamp and the
  deduplication id of the document; the only error it throws is a \<^verbatim>\<open>TypeError\<close>.
\<close>

lemma parseLoRaPayload_returns:
  "(\<exists>p. parseLoRaPayload e h up = Inr p) \<longleftrightarrow>
     resolve_at e h up \<noteq> None \<and> resolve_deduplicationId e h up \<noteq> None"
proof
  assume "\<exists>p. parseLoRaPayload e h up = Inr p"
  then show "resolve_at e h up \<noteq> None \<and> resolve_deduplicationId e h up \<noteq> None"
    using parseLoRaPayload_Inr by fastforce
next
  assume "resolve_at e h up \<noteq> None \<and> resolve_deduplicationId e h up \<noteq> None"
  then obtain t dd where "resolve_at e h up = Some t" "resolve_deduplicationId e h up = Some dd"
    by auto
  then show "\<exists>p. parseLoRaPayload e h up = Inr p"
    by (simp add: parseLoRaPayload_def Let_def)
qed

lemma parseLoRaPayload_error: "parseLoRaPayload e h up = Inl err \<Longrightarrow> err = TypeError"
  by (cases "resolve_at e h up"; cases "resolve_deduplicationId e h up")
    (simp_all add: parseLoRaPayload_def Let_def)

text \<open>
  When the normalizer returns an uplink without a device identity, the handler leaves
  both tables as they were, broadcasts nothing, records the drop as an
  \<^verbatim>\<open>up-missing\<close> event for its caller to see, and answers 200 \<^verbatim>\<open>ok\<close>.
\<close>

lemma drop_when_normalized:
  assumes "isWebhookAuthorized expected req"
    and "json_stringify e (body_heap h req) (body_doc h req) \<noteq> None"
    and "parseLoRaPayload e (body_heap h req) (body_doc h req) = Inr p"
    and "no_identity p"
  shows "handleLoRaWebhook e expected h req srv
    = (Inr \<lparr>res_status = 200, res_body = ''ok''\<rparr>,
       pushEvent e (UpMissing (provider p) (identity_shown p) (p_meterValue p) (p_at p)) srv)"
  using assms
  by (auto simp: handleLoRaWebhook_def handle_parsed_def ok_response_def)

lemma anonymous_doc_parsed:
  "parseLoRaPayload sample_env anonymous_doc (VRef 0)
     = Inr ((bare_uplink (VRef 0))\<lparr>p_at := ''2024-01-01T23:00Z'',
         p_meterValue := Some (Fin (423 / 10)), p_meterValueRaw := Some (RStr ''42.3'')\<rparr>)"
proof -
  have ent: "entries anonymous_doc (VRef 0)
      = Some [(''time'', VStr ''2024-01-01T23:00Z''), (''meterValue'', VStr ''42.3'')]"
    by (simp add: entries_def deref_def anonymous_doc_def)
  have t: "resolve_at sample_env anonymous_doc (VRef 0) = Some ''2024-01-01T23:00Z''"
    and dd: "resolve_deduplicationId sample_env anonymous_doc (VRef 0) = Some None"
    and m: "resolve_meterRaw sample_env anonymous_doc (VRef 0) None = Some (VStr ''42.3'')"
    and b: "resolve_battery anonymous_doc (VRef 0) None = None"
    by (simp_all add: doc_eval numOrNull_def entries_def deref_def anonymous_doc_def)
  have r: "resolve_rssi anonymous_doc (VRef 0) = None" "resolve_snr anonymous_doc (VRef 0) = None"
    by (simp_all add: signal_eval anonymous_doc_def)
  have pm: "parseMeterNumber (Some (VStr ''42.3''))
      = \<lparr>meterValue = Some (Fin (423 / 10)), meterValueRaw = Some (RStr ''42.3'')\<rparr>"
    by (simp add: meter_eval number_eval)
  show ?thesis
    by (subst parseLoRaPayload_bare [OF ent _ t dd])
      (simp_all add: m b r pm bare_uplink_def)
qed

lemma drop_anonymous_doc:
  "handleLoRaWebhook sample_env [] anonymous_doc anonymous_request idle_server
     = (Inr \<lparr>res_status = 200, res_body = ''ok''\<rparr>,
        \<lparr>srv_db = empty_db,
         lastEvents =
           [\<lparr>ev_ts = ''2024-01-03T00:00:00.000Z'',
             ev_body = UpMissing ''generic'' None (Some (Fin (423 / 10))) ''2024-01-01T23:00Z''\<rparr>],
         sse_sent = []\<rparr>)"
proof -
  have a: "isWebhookAuthorized [] anonymous_request"
    by (simp add: isWebhookAuthorized_def)
  have j: "json_stringify sample_env (body_heap anonymous_doc anonymous_request)
      (body_doc anonymous_doc anonymous_request) \<noteq> None"
    by (simp add: sample_env_def)
  have b: "body_heap anonymous_doc anonymous_request = anonymous_doc"
    "body_doc anonymous_doc anonymous_request = VRef 0"
    by (simp_all add: body_heap_def body_doc_def anonymous_request_def truthy_def)
  let ?p = "(bare_uplink (VRef 0))\<lparr>p_at := ''2024-01-01T23:00Z'',
      p_meterValue := Some (Fin (423 / 10)), p_meterValueRaw := Some (RStr ''42.3'')\<rparr>"
  have p: "parseLoRaPayload sample_env (body_heap anonymous_doc anonymous_request)
      (body_doc anonymous_doc anonymous_request) = Inr ?p"
    unfolding b by (rule anonymous_doc_parsed)
  have n: "no_identity ?p"
    by (simp add: no_identity_def bare_uplink_def)
  have ev: "pushEvent sample_env
      (UpMissing (provider ?p) (identity_shown ?p) (p_meterValue ?p) (p_at ?p)) idle_server
      = \<lparr>srv_db = empty_db,
         lastEvents =
           [\<lparr>ev_ts = ''2024-01-03T00:00:00.000Z'',
             ev_body = UpMissing ''generic'' None (Some (Fin (423 / 10))) ''2024-01-01T23:00Z''\<rparr>],
         sse_sent = []\<rparr>"
    by (simp add: pushEvent_def idle_server_def identity_shown_def bare_uplink_def sample_env_def)
  show ?thesis
    unfolding drop_when_normalized [OF a j p n] ev ..
qed

text \<open>
  C5. For every inbound document from which no device identity can be resolved, the
  engine should write no row, signal a drop to its caller and acknowledge the delivery
  as a success. The handler does so whenever the normalizer returns, but the normalizer
  runs outside the handler's \<^verbatim>\<open>try\<close> block and throws when the document's
  timestamp or deduplication id is a record with an entry named \<^verbatim>\<open>toString\<close>.
  For the document \<^verbatim>\<open>{time: {toString: 1}}\<close>, which has no device identity, an
  authorized delivery makes the handler throw a \<^verbatim>\<open>TypeError\<close>: nothing is
  written, but no drop is recorded and no response is sent.
\<close>

theorem drop_lost_when_normalizer_throws:
  "isWebhookAuthorized [] anonymous_request
   \<and> firstDefined time_record_doc (VRef 0) devEui_paths = None
   \<and> parseLoRaPayload sample_env time_record_doc (VRef 0) = Inl TypeError
   \<and> handleLoRaWebhook sample_env [] time_record_doc anonymous_request idle_server
       = (Inl TypeError, idle_server)"
proof -
  have b: "body_heap time_record_doc anonymous_request = time_record_doc"
    "body_doc time_record_doc anonymous_request = VRef 0"
    by (simp_all add: body_heap_def body_doc_def anonymous_request_def truthy_def)
  have a: "isWebhookAuthorized [] anonymous_request"
    by (simp add: isWebhookAuthorized_def)
  have j: "json_stringify sample_env time_record_doc (VRef 0) = Some ''{}''"
    by (simp add: sample_env_def)
  have d: "firstDefined time_record_doc (VRef 0) devEui_paths = None"
    by (simp add: devEui_paths_def entries_def deref_def time_record_doc_def)
  have p: "parseLoRaPayload sample_env time_record_doc (VRef 0) = Inl TypeError"
    by (simp add: parseLoRaPayload_def resolve_at_def js_String_def entries_def deref_def
        time_record_doc_def Let_def)
  have "handleLoRaWebhook sample_env [] time_record_doc anonymous_request idle_server
      = (Inl TypeError, idle_server)"
    by (simp add: handleLoRaWebhook_def a b j p)
  then show ?thesis using a d p by simp
qed

section \<open>Properties of the ingestion store\<close>

lemma uplink_do_update_key:
  "ul_dev_eui (uplink_do_update c r) = ul_dev_eui r"
  "ul_deduplication_id (uplink_do_update c r) = ul_deduplication_id r"
  "ul_id (uplink_do_update c r) = ul_id r"
  by (simp_all add: uplink_do_update_def)


lemma filter_map_update:
  assumes "\<And>r. P r \<Longrightarrow> P (f r)"
  shows "filter P (map (\<lambda>r. if P r then f r else r) xs) = map f (filter P xs)"
  using assms by (induction xs) simp_all

text \<open>The rows of the key an upsert writes to, after it.\<close>

lemma uplinks_of_stmtInsertUplink:
  assumes "ul_dev_eui c = dev" and "ul_deduplication_id c = Some k"
  shows "uplinks_of (stmtInsertUplink c d) dev k =
     (if uplinks_of d dev k = [] then [uplink_insert_row c (Suc (uplinks_seq d))]
      else map (uplink_do_update c) (uplinks_of d dev k))"
proof -
  let ?P = "\<lambda>r. ul_dev_eui r = dev \<and> ul_deduplication_id r = Some k"
  have conf: "uplink_conflict c = ?P"
    using assms by (auto simp: uplink_conflict_def fun_eq_iff)
  have ex: "list_ex ?P (uplinks d) \<longleftrightarrow> uplinks_of d dev k \<noteq> []"
    by (simp add: uplinks_of_def list_ex_iff filter_empty_conv)
  show ?thesis
  proof (cases "uplinks_of d dev k = []")
    case True
    then have "\<not> list_ex ?P (uplinks d)" using ex by simp
    then show ?thesis
      using True assms
      by (simp add: stmtInsertUplink_def conf) (simp add: uplinks_of_def uplink_insert_row_def)
  next
    case False
    then have "list_ex ?P (uplinks d)" using ex by simp
    moreover have "filter ?P (map (\<lambda>r. if ?P r then uplink_do_update c r else r) (uplinks d))
        = map (uplink_do_update c) (filter ?P (uplinks d))"
      by (rule filter_map_update) (simp add: uplink_do_update_key)
    ultimately show ?thesis
      using False by (simp add: stmtInsertUplink_def conf) (simp add: uplinks_of_def)
  qed
qed


lemma storeUplink_Inr:
  "storeUplink e h u d = Inr d' \<Longrightarrow> \<exists>c. uplink_cols e h u = Some c \<and> d' = stmtInsertUplink c d"
  by (auto simp: storeUplink_def split: option.splits)

lemma uplink_cols_key:
  assumes "uplink_cols e h u = Some c"
  shows "ul_dev_eui c = ui_dev_eui u" and "ul_deduplication_id c = Some (uplink_key u)"
  using assms by (auto simp: uplink_cols_def split: option.splits)

lemma uplink_cols_numbers:
  assumes "uplink_cols e h u = Some c"
  shows "ul_battery_mv c = round_or_null (ui_battery_mv u)"
    and "ul_rssi c = round_or_null (ui_rssi u)"
    and "ul_snr c = finite_or_null (ui_snr u)"
    and "ul_meter_value c = finite_or_null (ui_meter_value u)"
  using assms by (auto simp: uplink_cols_def split: option.splits)

lemma uplinks_of_storeUplink:
  assumes "uplink_cols e h u = Some c"
  shows "uplinks_of (stmtInsertUplink c d) (ui_dev_eui u) (uplink_key u) =
     (if uplinks_of d (ui_dev_eui u) (uplink_key u) = []
      then [uplink_insert_row c (Suc (uplinks_seq d))]
      else map (uplink_do_update c) (uplinks_of d (ui_dev_eui u) (uplink_key u)))"
  by (rule uplinks_of_stmtInsertUplink) (simp_all add: uplink_cols_key [OF assms])



lemma reading_do_update_eq:
  assumes "reading_conflict new r"
  shows "reading_do_update new r = new"
  using assms by (cases r; cases new) (simp add: reading_do_update_def reading_conflict_def)

lemma readings_of_stmtInsert:
  assumes "rd_dev_eui new = dev" and "rd_at new = t" and "rd_meter_value new \<noteq> NaN"
  shows "\<exists>d'. stmtInsert new d = Inr d'
     \<and> uplinks d' = uplinks d \<and> uplinks_seq d' = uplinks_seq d
     \<and> readings_of d' dev t = (if readings_of d dev t = [] then [new]
          else map (\<lambda>r. new) (readings_of d dev t))"
proof -
  let ?P = "\<lambda>r. rd_dev_eui r = dev \<and> rd_at r = t"
  have conf: "reading_conflict new = ?P"
    using assms by (auto simp: reading_conflict_def fun_eq_iff)
  have ex: "list_ex ?P (readings d) \<longleftrightarrow> readings_of d dev t \<noteq> []"
    by (simp add: readings_of_def list_ex_iff filter_empty_conv)
  have upd: "(\<lambda>r. if ?P r then reading_do_update new r else r) = (\<lambda>r. if ?P r then new else r)"
    using reading_do_update_eq [of new] conf by (auto simp: fun_eq_iff)
  show ?thesis
  proof (cases "readings_of d dev t = []")
    case True
    then have "\<not> list_ex ?P (readings d)" using ex by simp
    then show ?thesis
      using True assms by (simp add: stmtInsert_def conf) (simp add: readings_of_def)
  next
    case False
    then have "list_ex ?P (readings d)" using ex by simp
    moreover have "filter ?P (map (\<lambda>r. if ?P r then new else r) (readings d))
        = map (\<lambda>r. new) (filter ?P (readings d))"
      by (rule filter_map_update) (use assms in simp)
    ultimately show ?thesis
      using False assms by (simp add: stmtInsert_def conf upd) (simp add: readings_of_def)
  qed
qed

lemma reading_row_key:
  "rd_dev_eui (reading_row e i) = ri_dev_eui i"
  "rd_at (reading_row e i) = ri_at i"
  "rd_meter_value (reading_row e i) = ri_meter_value i"
  by (simp_all add: reading_row_def)

lemma storeReading_rows:
  assumes "ri_meter_value i \<noteq> NaN"
  shows "\<exists>d'. storeReading e i d = Inr d'
     \<and> uplinks d' = uplinks d \<and> uplinks_seq d' = uplinks_seq d
     \<and> readings_of d' (ri_dev_eui i) (ri_at i)
         = replicate (max 1 (length (readings_of d (ri_dev_eui i) (ri_at i)))) (reading_row e i)"
proof -
  from readings_of_stmtInsert [of "reading_row e i" "ri_dev_eui i" "ri_at i" d] assms
  obtain d' where "stmtInsert (reading_row e i) d = Inr d'"
    and "uplinks d' = uplinks d" and "uplinks_seq d' = uplinks_seq d"
    and "readings_of d' (ri_dev_eui i) (ri_at i) =
      (if readings_of d (ri_dev_eui i) (ri_at i) = [] then [reading_row e i]
       else map (\<lambda>r. reading_row e i) (readings_of d (ri_dev_eui i) (ri_at i)))"
    by (auto simp: reading_row_key)
  then show ?thesis
    by (auto simp: storeReading_def map_replicate_const max_def Suc_le_eq)
qed




lemmas store_eval =
  storeUplink_def stmtInsertUplink_def uplink_cols_def uplink_key_def uplink_conflict_def
  uplink_do_update_def uplink_insert_row_def storeReading_def stmtInsert_def reading_row_def
  reading_conflict_def reading_do_update_def uplinks_of_def readings_of_def empty_db_def
  raw_string_def finite_or_null_def round_or_null_def stringify_or_null_def
  first_delivery_def second_delivery_def first_reading_def second_reading_def
  infinite_reading_def

lemma floor_eval:
  "\<lfloor>36001 / (10::rat)\<rfloor> = 3600"
  "\<lfloor>- (159 / (2::rat))\<rfloor> = - 80"
  "\<lfloor>- (119 / (2::rat))\<rfloor> = - 60"
  by (simp_all add: floor_eq_iff)














section \<open>Properties of the stored numbers\<close>

lemma round_or_null_cases:
  "round_or_null x = None \<or> (\<exists>z. round_or_null x = Some (Fin (of_int z)))"
  by (cases x; (cases "the x")?) (auto simp: round_or_null_def)

lemma round_nearest: "\<bar>q - of_int \<lfloor>q + 1 / 2\<rfloor>\<bar> \<le> 1 / (2::rat)"
  by linarith

lemma storeUplink_row_fields:
  assumes "storeUplink e h u d = Inr d'"
    and "r \<in> set (uplinks_of d' (ui_dev_eui u) (uplink_key u))"
  shows "ul_battery_mv r = round_or_null (ui_battery_mv u)
    \<and> ul_rssi r = round_or_null (ui_rssi u)
    \<and> ul_snr r = finite_or_null (ui_snr u)
    \<and> ul_meter_value r = finite_or_null (ui_meter_value u)"
proof -
  from storeUplink_Inr [OF assms(1)]
  obtain c where c: "uplink_cols e h u = Some c" and d': "d' = stmtInsertUplink c d" by blast
  from assms(2) show ?thesis
    unfolding d' uplinks_of_storeUplink [OF c]
    by (auto simp: uplink_insert_row_def uplink_do_update_def uplink_cols_numbers [OF c]
        split: if_splits)
qed

lemma storeUplink_row_exists:
  assumes "storeUplink e h u d = Inr d'"
  shows "uplinks_of d' (ui_dev_eui u) (uplink_key u) \<noteq> []"
proof -
  from storeUplink_Inr [OF assms]
  obtain c where c: "uplink_cols e h u = Some c" and d': "d' = stmtInsertUplink c d" by blast
  show ?thesis unfolding d' by (simp add: uplinks_of_storeUplink [OF c])
qed

lemma storeReading_NaN:
  "storeReading e i d = Inl SqliteError \<longleftrightarrow> ri_meter_value i = NaN"
  by (simp add: storeReading_def stmtInsert_def reading_row_def)

lemma storeReading_row_fields:
  assumes "storeReading e i d = Inr d'"
    and "r \<in> set (readings_of d' (ri_dev_eui i) (ri_at i))"
  shows "rd_battery_mv r = round_or_null (ri_battery_mv i)
    \<and> rd_rssi r = round_or_null (ri_rssi i)
    \<and> rd_snr r = finite_or_null (ri_snr i)
    \<and> rd_meter_value r = ri_meter_value i
    \<and> rd_meter_value r \<noteq> NaN"
proof -
  have nn: "ri_meter_value i \<noteq> NaN"
    using assms(1) storeReading_NaN [of e i d] by (cases "ri_meter_value i = NaN") auto
  from storeReading_rows [OF nn, of e d] assms
  have "r = reading_row e i" by auto
  then show ?thesis using nn by (simp add: reading_row_def)
qed

lemma storeReading_row_exists:
  assumes "storeReading e i d = Inr d'"
  shows "readings_of d' (ri_dev_eui i) (ri_at i) \<noteq> []"
proof -
  have nn: "ri_meter_value i \<noteq> NaN"
    using assms storeReading_NaN [of e i d] by (cases "ri_meter_value i = NaN") auto
  from storeReading_rows [OF nn, of e d] assms show ?thesis by auto
qed

text \<open>
  C10, as amended. Every row \<^verbatim>\<open>storeUplink\<close> or \<^verbatim>\<open>storeReading\<close> writes has
  \<^verbatim>\<open>battery_mv\<close> and \<^verbatim>\<open>rssi\<close> equal to null or to an integer, the input rounded
  to the nearest integer; a non-finite input (NaN or an infinity) for
  \<^verbatim>\<open>battery_mv\<close>, \<^verbatim>\<open>rssi\<close> or \<^verbatim>\<open>snr\<close>, and in \<^verbatim>\<open>storeUplink\<close> for
  \<^verbatim>\<open>meter_value\<close>, is stored as null. \<^verbatim>\<open>storeReading\<close> binds its
  \<^verbatim>\<open>meter_value\<close> as it is given: a NaN is refused by the \<^verbatim>\<open>NOT NULL\<close> column
  and nothing is written, any other value is stored unchanged.
\<close>

theorem stored_numbers:
  "(\<forall>d'. storeUplink e h u d = Inr d' \<longrightarrow>
        uplinks_of d' (ui_dev_eui u) (uplink_key u) \<noteq> []
        \<and> (\<forall>r \<in> set (uplinks_of d' (ui_dev_eui u) (uplink_key u)).
             ul_battery_mv r = round_or_null (ui_battery_mv u)
             \<and> ul_rssi r = round_or_null (ui_rssi u)
             \<and> ul_snr r = finite_or_null (ui_snr u)
             \<and> ul_meter_value r = finite_or_null (ui_meter_value u)))
   \<and> (storeReading e i d = Inl SqliteError \<longleftrightarrow> ri_meter_value i = NaN)
   \<and> (\<forall>d'. storeReading e i d = Inr d' \<longrightarrow>
        readings_of d' (ri_dev_eui i) (ri_at i) \<noteq> []
        \<and> (\<forall>r \<in> set (readings_of d' (ri_dev_eui i) (ri_at i)).
             rd_battery_mv r = round_or_null (ri_battery_mv i)
             \<and> rd_rssi r = round_or_null (ri_rssi i)
             \<and> rd_snr r = finite_or_null (ri_snr i)
             \<and> rd_meter_value r = ri_meter_value i
             \<and> rd_meter_value r \<noteq> NaN))
   \<and> (round_or_null x = None \<or> (\<exists>z. round_or_null x = Some (Fin (of_int z))))
   \<and> (\<forall>q. round_or_null (Some (Fin q)) = Some (Fin (of_int \<lfloor>q + 1 / 2\<rfloor>))
         \<and> \<bar>q - of_int \<lfloor>q + 1 / 2\<rfloor>\<bar> \<le> 1 / 2
         \<and> finite_or_null (Some (Fin q)) = Some (Fin q))
   \<and> (\<forall>n. \<not> isFinite n \<longrightarrow> round_or_null (Some n) = None \<and> finite_or_null (Some n) = None)
   \<and> round_or_null None = None \<and> finite_or_null None = None"
proof -
  have a: "\<forall>d'. storeUplink e h u d = Inr d' \<longrightarrow>
        uplinks_of d' (ui_dev_eui u) (uplink_key u) \<noteq> []
        \<and> (\<forall>r \<in> set (uplinks_of d' (ui_dev_eui u) (uplink_key u)).
             ul_battery_mv r = round_or_null (ui_battery_mv u)
             \<and> ul_rssi r = round_or_null (ui_rssi u)
             \<and> ul_snr r = finite_or_null (ui_snr u)
             \<and> ul_meter_value r = finite_or_null (ui_meter_value u))"
    using storeUplink_row_exists storeUplink_row_fields by blast
  have b: "\<forall>d'. storeReading e i d = Inr d' \<longrightarrow>
        readings_of d' (ri_dev_eui i) (ri_at i) \<noteq> []
        \<and> (\<forall>r \<in> set (readings_of d' (ri_dev_eui i) (ri_at i)).
             rd_battery_mv r = round_or_null (ri_battery_mv i)
             \<and> rd_rssi r = round_or_null (ri_rssi i)
             \<and> rd_snr r = finite_or_null (ri_snr i)
             \<and> rd_meter_value r = ri_meter_value i
             \<and> rd_meter_value r \<noteq> NaN)"
    using storeReading_row_exists storeReading_row_fields by blast
  have c: "\<forall>q. round_or_null (Some (Fin q)) = Some (Fin (of_int \<lfloor>q + 1 / 2\<rfloor>))
         \<and> \<bar>q - of_int \<lfloor>q + 1 / 2\<rfloor>\<bar> \<le> 1 / 2
         \<and> finite_or_null (Some (Fin q)) = Some (Fin q)"
    using round_nearest by (simp add: round_or_null_def finite_or_null_def)
  have e: "\<forall>n. \<not> isFinite n \<longrightarrow> round_or_null (Some n) = None \<and> finite_or_null (Some n) = None"
    by (simp add: round_or_null_def finite_or_null_def)
  have f: "round_or_null None = None \<and> finite_or_null None = None"
    by (simp add: round_or_null_def finite_or_null_def)
  from a b c e f storeReading_NaN [of e i d] round_or_null_cases [of x]
  show ?thesis by blast
qed

theorem stored_numbers_witness:
  "storeUplink sample_env [] second_delivery empty_db
     = Inr \<lparr>readings = [],
            uplinks = [(uplink_at ''2024-01-01T23:00Z'' 1)\<lparr>ul_rssi := Some (Fin (- 60)), ul_snr := None\<rparr>],
            uplinks_seq = 1\<rparr>
   \<and> round_or_null (ui_battery_mv second_delivery) = Some (Fin 3600)
   \<and> round_or_null (ui_rssi second_delivery) = Some (Fin (- 60))
   \<and> finite_or_null (ui_snr second_delivery) = None
   \<and> finite_or_null (ui_meter_value second_delivery) = Some (Fin 100)"
proof -
  let ?r = "(uplink_at ''2024-01-01T23:00Z'' 1)\<lparr>ul_rssi := Some (Fin (- 60)), ul_snr := None\<rparr>"
  let ?d = "\<lparr>readings = [], uplinks = [?r], uplinks_seq = 1\<rparr>"
  have st: "storeUplink sample_env [] second_delivery empty_db = Inr ?d"
    by (simp add: store_eval uplink_at_def floor_eval sample_env_def)
  have "uplinks_of ?d (ui_dev_eui second_delivery) (uplink_key second_delivery) = [?r]"
    by (simp add: store_eval uplink_at_def)
  then have "?r \<in> set (uplinks_of ?d (ui_dev_eui second_delivery) (uplink_key second_delivery))"
    by simp
  with stored_numbers [of sample_env "[]" second_delivery empty_db] st
  have "ul_battery_mv ?r = round_or_null (ui_battery_mv second_delivery)
      \<and> ul_rssi ?r = round_or_null (ui_rssi second_delivery)
      \<and> ul_snr ?r = finite_or_null (ui_snr second_delivery)
      \<and> ul_meter_value ?r = finite_or_null (ui_meter_value second_delivery)"
    by blast
  then show ?thesis using st by (simp add: uplink_at_def)
qed

text \<open>
  C10 as stated fails for the meter value of \<^verbatim>\<open>storeReading\<close>: an infinity is
  stored as it is, not as null. (The column is \<^verbatim>\<open>REAL NOT NULL\<close>; the sibling
  \<^verbatim>\<open>storeUplink\<close>, whose column is nullable, does map it to null.)
\<close>

theorem storeReading_keeps_infinity:
  "storeReading sample_env infinite_reading empty_db
     = Inr \<lparr>readings =
              [\<lparr>rd_dev_eui = ''70b3d57ed0001234'',
                rd_at = ''2024-01-01T23:00Z'',
                rd_meter_value = PosInf,
                rd_meter_value_raw = Some ''100'',
                rd_device_name = Some ''meter-1'',
                rd_application_id = None,
                rd_application_name = None,
                rd_deduplication_id = None,
                rd_battery_mv = Some (Fin 3600),
                rd_rssi = Some (Fin (- 80)),
                rd_snr = Some (Fin 5)\<rparr>],
            uplinks = [], uplinks_seq = 0\<rparr>"
  by (simp add: store_eval floor_eval)

section \<open>Properties of the uplink listing\<close>



text \<open>
  Five candidates under a limit of \<^verbatim>\<open>1.0000000000000002\<close>: the subtraction gives 4
  and one row is returned.
\<close>

lemma slice_rounded:
  "slice_from (js_max (Fin 0) (js_sub (Fin (of_nat (length [a, b, c, d, e])))
      (js_max (Fin 1) (Fin (1 + 1 / 2 ^ 52))))) [a, b, c, d, e] = [e]"
proof -
  have "js_sub (Fin 5) (Fin (1 + 1 / 2 ^ 52)) = Fin 4"
    using to_double_tie by simp
  then show ?thesis by (simp add: slice_from_def)
qed









section \<open>Properties of the daily consumption\<close>











section \<open>Properties of the keyword search\<close>

lemma fk_iter_Returned: "fk_iter h w m n (Returned r) = Returned r"
  by (cases n) simp_all

text \<open>
  The loop returns after finitely many iterations, on every store: the recursion of
  \<open>fk_loop\<close> is well-founded because an iteration either marks a reference that was
  not seen before or shortens the stack.
\<close>

lemma fk_iter_reaches_loop:
  "\<exists>n. fk_iter h w m n (Running st seen) = Returned (fk_loop h w m st seen)"
proof (induction h w m st seen rule: fk_loop.induct)
  case (1 h w m st seen)
  show ?case
  proof (cases "fk_step h w m st seen")
    case (Returned r)
    then have "fk_iter h w m (Suc 0) (Running st seen) = Returned (fk_loop h w m st seen)"
      by (simp add: fk_loop.simps [of h w m st seen])
    then show ?thesis by blast
  next
    case (Running st' seen')
    from "1.IH" [OF this] obtain n
      where "fk_iter h w m n (Running st' seen') = Returned (fk_loop h w m st' seen')" by blast
    then have "fk_iter h w m (Suc n) (Running st seen) = Returned (fk_loop h w m st seen)"
      using Running by (simp add: fk_loop.simps [of h w m st seen])
    then show ?thesis by blast
  qed
qed

lemma child_level:
  assumes "v \<in> set (level h rt d)" and "x \<in> set (children h v)"
  shows "x \<in> set (level h rt (Suc d))"
  using assms by auto

lemma scan_entries_stack:
  assumes "scan_entries w d es st = Inr st'"
  shows "set st' \<subseteq> set st \<union> (\<lambda>x. (x, d + 1)) ` snd ` set es"
  using assms
  by (induction w d es st rule: scan_entries.induct) (auto split: if_splits)

lemma scan_entries_hit:
  assumes "scan_entries w d es st = Inl x"
  shows "x \<in> snd ` set es"
  using assms
  by (induction w d es st rule: scan_entries.induct) (auto split: if_splits)

lemma list_ex_upt: "list_ex P [0..<Suc m] \<longleftrightarrow> (\<exists>d \<le> m. P d)"
  unfolding list_ex_iff set_upt by (auto simp: less_Suc_eq_le)

lemma fk_inv_alt:
  "fk_inv h rt m st seen \<longleftrightarrow>
     (\<forall>(v, d) \<in> set st. v \<in> set (level h rt d) \<and> d \<le> m + 1)
     \<and> (\<forall>v \<in> set seen. \<exists>d \<le> m. v \<in> set (level h rt d))"
  unfolding fk_inv_def list_all_iff list_ex_upt by auto

text \<open>An iteration keeps the invariant: it visits at depth \<open>maxDepth\<close> at most.\<close>

lemma fk_step_inv:
  assumes "fk_step h w m st seen = Running st' seen'" and "fk_inv h rt m st seen"
  shows "fk_inv h rt m st' seen'"
proof (cases st)
  case Nil
  with assms show ?thesis by (simp add: fk_step_def)
next
  case (Cons p rest)
  obtain v d where p: "p = (v, d)" by (cases p)
  from assms(2) Cons p have vd: "v \<in> set (level h rt d)"
    and rest: "\<forall>(v, d) \<in> set rest. v \<in> set (level h rt d) \<and> d \<le> m + 1"
    and seen: "\<forall>v \<in> set seen. \<exists>d \<le> m. v \<in> set (level h rt d)"
    by (auto simp: fk_inv_alt)
  show ?thesis
  proof (cases "v = VNull \<or> v \<in> set seen \<or> m < d")
    case True
    with assms(1) Cons p have "st' = rest" "seen' = seen" by (auto simp: fk_step_def)
    then show ?thesis using rest seen by (simp add: fk_inv_alt)
  next
    case False
    then have dm: "d \<le> m" by simp
    have seen': "\<forall>u \<in> set (v # seen). \<exists>d \<le> m. u \<in> set (level h rt d)"
      using seen vd dm by auto
    have kids: "\<And>x. x \<in> set (children h v) \<Longrightarrow> x \<in> set (level h rt (d + 1)) \<and> d + 1 \<le> m + 1"
      using child_level [OF vd] dm by simp
    show ?thesis
    proof (cases "deref h v")
      case None
      with assms(1) Cons p False have "st' = rest" "seen' = v # seen"
        by (auto simp: fk_step_def)
      then show ?thesis using rest seen' by (simp add: fk_inv_alt)
    next
      case (Some ob)
      show ?thesis
      proof (cases ob)
        case (Arr xs)
        with assms(1) Cons p False Some
        have s: "st' = rev (map (\<lambda>x. (x, d + 1)) xs) @ rest" "seen' = v # seen"
          by (auto simp: fk_step_def)
        have "children h v = xs" using Some Arr by (simp add: children_def)
        with kids have "\<forall>x \<in> set xs. x \<in> set (level h rt (d + 1)) \<and> d + 1 \<le> m + 1" by blast
        then show ?thesis using s rest seen' by (auto simp: fk_inv_alt)
      next
        case (Obj es)
        with assms(1) Cons p False Some
        have sc: "scan_entries w d es rest = Inr st'" and s: "seen' = v # seen"
          by (auto simp: fk_step_def split: sum.splits)
        have "children h v = map snd es" using Some Obj by (simp add: children_def)
        with kids have k: "\<forall>x \<in> snd ` set es. x \<in> set (level h rt (d + 1)) \<and> d + 1 \<le> m + 1"
          by simp
        have "\<forall>(v, d) \<in> set st'. v \<in> set (level h rt d) \<and> d \<le> m + 1"
          using scan_entries_stack [OF sc] rest k by fastforce
        then show ?thesis using s seen' by (simp add: fk_inv_alt)
      qed
    qed
  qed
qed

lemma fk_iter_inv:
  assumes "fk_iter h w m n (Running st seen) = Running st' seen'" and "fk_inv h rt m st seen"
  shows "fk_inv h rt m st' seen'"
  using assms
proof (induction n arbitrary: st seen)
  case 0
  then show ?case by simp
next
  case (Suc n)
  show ?case
  proof (cases "fk_step h w m st seen")
    case (Returned r)
    with Suc.prems(1) show ?thesis by (simp add: fk_iter_Returned)
  next
    case (Running st1 seen1)
    with Suc.prems(1) have "fk_iter h w m n (Running st1 seen1) = Running st' seen'" by simp
    from Suc.IH [OF this fk_step_inv [OF Running Suc.prems(2)]] show ?thesis .
  qed
qed

lemma fk_inv_init: "fk_inv h rt m [(rt, 0)] []"
  unfolding fk_inv_alt by simp

text \<open>
  A value is returned out of the entries of a visited record, so it lies at most
  \<open>maxDepth + 1\<close> edges below the root.
\<close>

lemma fk_loop_result_depth:
  assumes "fk_inv h rt m st seen" and "fk_loop h w m st seen = Some x"
  shows "\<exists>d \<le> m + 1. x \<in> set (level h rt d)"
  using assms
proof (induction h w m st seen rule: fk_loop.induct)
  case (1 h w m st seen)
  show ?case
  proof (cases "fk_step h w m st seen")
    case (Running st' seen')
    with "1.prems"(2) have "fk_loop h w m st' seen' = Some x"
      by (simp add: fk_loop.simps [of h w m st seen])
    from "1.IH" [OF Running fk_step_inv [OF Running "1.prems"(1)] this] show ?thesis .
  next
    case (Returned r)
    with "1.prems"(2) have r: "r = Some x"
      by (simp add: fk_loop.simps [of h w m st seen])
    from Returned r obtain v d rest es
      where st: "st = (v, d) # rest" and dm: "d \<le> m" and ob: "deref h v = Some (Obj es)"
        and hit: "scan_entries w d es rest = Inl x"
      by (auto simp: fk_step_def split: list.splits if_splits option.splits obj.splits sum.splits)
    from "1.prems"(1) st have "v \<in> set (level h rt d)" by (auto simp: fk_inv_alt)
    moreover have "x \<in> set (children h v)"
      using scan_entries_hit [OF hit] ob by (simp add: children_def)
    ultimately have "x \<in> set (level h rt (Suc d))" by (rule child_level)
    then show ?thesis using dm by (intro exI [of _ "Suc d"]) simp
  qed
qed

text \<open>
  C9, as amended. On every store, whatever refers to what in it, the loop of
  \<^verbatim>\<open>findFirstKeyDeep\<close> returns after finitely many iterations, with the value the
  function returns. At every moment of the run each value the search has visited (has
  marked as seen, and enumerated when it is an array or a record) lies at most
  \<open>maxDepth\<close> edges below the root. The search reads the entries of the records it
  visits: the values it has pushed on its stack, and the value it returns, lie at most
  \<open>maxDepth + 1\<close> edges below the root.
\<close>

theorem findFirstKeyDeep_terminates:
  "(\<exists>n. fk_iter h keys m n (Running [(rt, 0)] []) = Returned (findFirstKeyDeep h rt keys m))
   \<and> (\<forall>n st seen v. fk_iter h keys m n (Running [(rt, 0)] []) = Running st seen \<and> v \<in> set seen
        \<longrightarrow> (\<exists>d \<le> m. v \<in> set (level h rt d)))
   \<and> (\<forall>n st seen v d. fk_iter h keys m n (Running [(rt, 0)] []) = Running st seen
        \<and> (v, d) \<in> set st \<longrightarrow> d \<le> m + 1 \<and> v \<in> set (level h rt d))
   \<and> (\<forall>x. findFirstKeyDeep h rt keys m = Some x \<longrightarrow> (\<exists>d \<le> m + 1. x \<in> set (level h rt d)))"
proof -
  have a: "\<exists>n. fk_iter h keys m n (Running [(rt, 0)] []) = Returned (findFirstKeyDeep h rt keys m)"
    unfolding findFirstKeyDeep_def by (rule fk_iter_reaches_loop)
  have b: "\<forall>n st seen v. fk_iter h keys m n (Running [(rt, 0)] []) = Running st seen \<and> v \<in> set seen
        \<longrightarrow> (\<exists>d \<le> m. v \<in> set (level h rt d))"
    using fk_iter_inv [OF _ fk_inv_init] by (auto simp: fk_inv_alt)
  have c: "\<forall>n st seen v d. fk_iter h keys m n (Running [(rt, 0)] []) = Running st seen
        \<and> (v, d) \<in> set st \<longrightarrow> d \<le> m + 1 \<and> v \<in> set (level h rt d)"
    using fk_iter_inv [OF _ fk_inv_init] by (fastforce simp: fk_inv_alt)
  have d: "\<forall>x. findFirstKeyDeep h rt keys m = Some x \<longrightarrow> (\<exists>d \<le> m + 1. x \<in> set (level h rt d))"
    unfolding findFirstKeyDeep_def using fk_loop_result_depth [OF fk_inv_init] by blast
  from a b c d show ?thesis by blast
qed

lemmas search_eval = fk_step_def deref_def cyclic_doc_def

theorem findFirstKeyDeep_terminates_witness:
  "fk_iter cyclic_doc [''meter''] 4 (Suc 0) (Running [(VRef 0, 0)] [])
     = Running [(VRef 1, 1), (VRef 0, 1)] [VRef 0]
   \<and> (\<exists>d \<le> 4. VRef 0 \<in> set (level cyclic_doc (VRef 0) d))
   \<and> fk_iter cyclic_doc [''meter''] 4 4 (Running [(VRef 0, 0)] []) = Running [(VRef 0, 1)] [VRef 1, VRef 0]
   \<and> fk_iter cyclic_doc [''meter''] 4 6 (Running [(VRef 0, 0)] []) = Returned None
   \<and> findFirstKeyDeep cyclic_doc (VRef 0) [''meter''] 4 = None"
proof -
  have one: "fk_iter cyclic_doc [''meter''] 4 (Suc 0) (Running [(VRef 0, 0)] [])
      = Running [(VRef 1, 1), (VRef 0, 1)] [VRef 0]"
    by (simp add: search_eval)
  have "VRef 0 \<in> set [VRef 0]" by simp
  with findFirstKeyDeep_terminates [of cyclic_doc "[''meter'']" 4 "VRef 0"] one
  have depth: "\<exists>d \<le> 4. VRef 0 \<in> set (level cyclic_doc (VRef 0) d)" by blast
  have four: "fk_iter cyclic_doc [''meter''] 4 4 (Running [(VRef 0, 0)] [])
      = Running [(VRef 0, 1)] [VRef 1, VRef 0]"
    by (simp add: search_eval eval_nat_numeral)
  have six: "fk_iter cyclic_doc [''meter''] 4 6 (Running [(VRef 0, 0)] []) = Returned None"
    by (simp add: search_eval eval_nat_numeral)
  have res: "findFirstKeyDeep cyclic_doc (VRef 0) [''meter''] 4 = None"
    by (simp add: findFirstKeyDeep_def fk_loop.simps search_eval)
  from one depth four six res show ?thesis by simp
qed

text \<open>
  C9 as stated fails for the values the search reads without visiting them: with a
  \<open>maxDepth\<close> of 0 it returns the 7 of \<^verbatim>\<open>{meter: 7}\<close>, which lies one edge below
  the root.
\<close>

theorem findFirstKeyDeep_reads_one_deeper:
  "findFirstKeyDeep shallow_doc (VRef 0) [''meter''] 0 = Some (VNum (Fin 7))
   \<and> level shallow_doc (VRef 0) 0 = [VRef 0]
   \<and> level shallow_doc (VRef 0) 1 = [VNum (Fin 7)]"
  by (simp add: findFirstKeyDeep_def fk_loop.simps fk_step_def deref_def children_def
      shallow_doc_def)


end
